theory Spec2Isabelle
  imports Complex_Main "HOL-Library.Sublist" "HOL-Library.Product_Lexorder" "HOL-Library.Log_Nat"
begin

section \<open>Content Chunker (agent/nodes/content_processing.py, chunk\_content)\<close>

text \<open>
  Python strings are modelled as \<^typ>\<open>string\<close>, one \<^typ>\<open>char\<close> per code point
  (code points below 256), so that \<^term>\<open>length\<close> is Python's \<open>len\<close>.
  A scraped document is a dictionary read with \<open>doc.get(key, "")\<close>; an absent
  \<open>url\<close>, \<open>title\<close>, \<open>source\<close> or \<open>published_date\<close> is the empty string.  The body is
  \<open>doc.get("content", doc.get("text", ""))\<close>, so both keys are optional.
\<close>

record document =
  d_url :: string
  d_title :: string
  d_source :: string
  d_published_date :: string
  d_content :: "string option"
  d_text :: "string option"

record chunk =
  c_url :: string
  c_title :: string
  c_source :: string
  c_published_date :: string
  c_content :: string
  c_text :: string

definition nl :: char where
  "nl = CHR 0x0A"

definition chunk_size :: nat where
  "chunk_size = 2000"

definition overlap :: nat where
  "overlap = 200"

definition doc_body :: "document \<Rightarrow> string" where
  "doc_body d =
     (case d_content d of
        Some c \<Rightarrow> c
      | None \<Rightarrow> (case d_text d of Some t \<Rightarrow> t | None \<Rightarrow> []))"

definition metadata_header :: "document \<Rightarrow> string" where
  "metadata_header d =
     ''SOURCE: '' @ d_source d @ [nl] @ ''TITLE: '' @ d_title d @ [nl] @
     ''URL: '' @ d_url d @ [nl] @ ''DATE: '' @ d_published_date d @ [nl, nl]"

text \<open>\<open>content.split("\n")\<close>: the pieces between newlines; the empty string gives one
  empty piece.\<close>

fun split_nl :: "string \<Rightarrow> string list" where
  "split_nl [] = [[]]"
| "split_nl (c # cs) =
     (if c = nl then [] # split_nl cs
      else (case split_nl cs of [] \<Rightarrow> [[c]] | p # ps \<Rightarrow> (c # p) # ps))"

text \<open>The characters \<open>str.strip()\<close> removes (those with \<open>isspace()\<close>) among the code
  points below 256.\<close>

definition is_space :: "char \<Rightarrow> bool" where
  "is_space c =
     (let n = of_char c :: nat
      in (9 \<le> n \<and> n \<le> 13) \<or> (28 \<le> n \<and> n \<le> 32) \<or> n = 133 \<or> n = 160)"

text \<open>\<open>[p for p in content.split("\n") if p.strip()]\<close>\<close>

definition paragraphs :: "string \<Rightarrow> string list" where
  "paragraphs content = filter (\<lambda>p. \<not> list_all is_space p) (split_nl content)"

text \<open>\<open>"\n".join(current_chunk)\<close>\<close>

fun join_nl :: "string list \<Rightarrow> string" where
  "join_nl [] = []"
| "join_nl [p] = p"
| "join_nl (p # q # ps) = p @ nl # join_nl (q # ps)"

definition mk_chunk :: "document \<Rightarrow> string \<Rightarrow> chunk" where
  "mk_chunk d chunk_text =
     \<lparr> c_url = d_url d, c_title = d_title d, c_source = d_source d,
       c_published_date = d_published_date d,
       c_content = chunk_text, c_text = chunk_text \<rparr>"

text \<open>
  The inner loop \<open>for para in reversed(current_chunk)\<close>: the first argument is the
  reversed chunk still to visit, the second \<open>overlap_paragraphs\<close> (built with
  \<open>insert(0, para)\<close>), the third \<open>overlap_length\<close>.
\<close>

fun take_overlap :: "string list \<Rightarrow> string list \<Rightarrow> nat \<Rightarrow> string list \<times> nat" where
  "take_overlap [] overlap_paragraphs overlap_length = (overlap_paragraphs, overlap_length)"
| "take_overlap (para # rest) overlap_paragraphs overlap_length =
     (let overlap_paragraphs' = para # overlap_paragraphs;
          overlap_length' = overlap_length + length para
      in if overlap_length' \<ge> overlap then (overlap_paragraphs', overlap_length')
         else take_overlap rest overlap_paragraphs' overlap_length')"

text \<open>
  The loop \<open>for paragraph in paragraphs\<close> with its state \<open>current_chunk\<close>,
  \<open>current_length\<close>, followed by the flush of the last chunk.  The result is the list
  of chunks appended for this document.
\<close>

fun chunk_loop :: "document \<Rightarrow> string list \<Rightarrow> string list \<Rightarrow> nat \<Rightarrow> chunk list" where
  "chunk_loop d [] current_chunk current_length =
     (if current_chunk \<noteq> [] \<and> current_length > 0
      then [mk_chunk d (metadata_header d @ join_nl current_chunk)] else [])"
| "chunk_loop d (paragraph # rest) current_chunk current_length =
     (let current_chunk' = current_chunk @ [paragraph];
          current_length' = current_length + length paragraph
      in if current_length' \<ge> chunk_size
         then mk_chunk d (metadata_header d @ join_nl current_chunk') #
              (let r = take_overlap (rev current_chunk') [] 0
               in chunk_loop d rest (fst r) (snd r))
         else chunk_loop d rest current_chunk' current_length')"

text \<open>The body of the loop \<open>for doc in scraped_content\<close>: the chunks one document adds.\<close>

definition chunk_document :: "document \<Rightarrow> chunk list" where
  "chunk_document d =
     (let content = doc_body d
      in if content = [] then []
         else if length content < 2000
         then [mk_chunk d (metadata_header d @ content)]
         else chunk_loop d (paragraphs content) [] 0)"

definition chunk_content :: "document list \<Rightarrow> chunk list" where
  "chunk_content scraped_content = concat (map chunk_document scraped_content)"

section \<open>Negative-News Analyzer (agent/nodes/analysis.py, analyze\_content)\<close>

subsection \<open>Python values and strings\<close>

text \<open>A dictionary field read with \<open>.get\<close> is absent (\<open>None\<close> of the option type), the
  Python value \<open>None\<close>, or a string.\<close>

datatype pyval = PyNone | PyStr string

text \<open>Truthiness of \<open>d.get(key)\<close>: only a non-empty string is true.\<close>

fun truthy :: "pyval option \<Rightarrow> bool" where
  "truthy (Some (PyStr s)) = (s \<noteq> [])"
| "truthy _ = False"

text \<open>What an f-string prints for a value.\<close>

fun py_str :: "pyval \<Rightarrow> string" where
  "py_str PyNone = ''None''"
| "py_str (PyStr s) = s"

text \<open>\<open>str.lower()\<close> on code points below 256: the letters A--Z and the accented capitals
  of Latin-1 (0xC0--0xDE without the multiplication sign 0xD7) move up by 32.\<close>

definition lower_char :: "char \<Rightarrow> char" where
  "lower_char c =
     (let n = of_char c :: nat
      in if (65 \<le> n \<and> n \<le> 90) \<or> (192 \<le> n \<and> n \<le> 222 \<and> n \<noteq> 215)
         then char_of (n + 32) else c)"

definition py_lower :: "string \<Rightarrow> string" where
  "py_lower s = map lower_char s"

text \<open>\<open>sub in s\<close>\<close>

fun contains :: "string \<Rightarrow> string \<Rightarrow> bool" where
  "contains sub [] = (sub = [])"
| "contains sub (c # cs) = (prefix sub (c # cs) \<or> contains sub cs)"

text \<open>The apostrophe, which a string literal of this theory cannot hold.\<close>

definition apostrophe :: string where
  "apostrophe = [CHR 0x27]"

subsection \<open>Python numbers\<close>

text \<open>
  A Python \<open>float\<close> is an IEEE 754 binary64 value: a finite one, kept as the rational
  number it denotes (the sign of a zero is dropped), an infinity or a NaN.  The integer
  results \<open>0\<close> and \<open>10\<close> of the risk score are kept as the floats of the same value.
\<close>

datatype pyfloat = Finite rat | PosInf | NegInf | NaN

instantiation pyfloat :: zero
begin

definition zero_pyfloat :: pyfloat where
  "zero_pyfloat = Finite 0"

instance ..

end

text \<open>\<open>2 ** e\<close> for an integer exponent.\<close>

definition pow2 :: "int \<Rightarrow> rat" where
  "pow2 e = (if 0 \<le> e then 2 ^ nat e else 1 / 2 ^ nat (- e))"

text \<open>The binary exponent of a non-zero rational \<open>x\<close>: the \<open>e\<close> with
  \<open>2 ** e \<le> |x| < 2 ** (e + 1)\<close>.  With numerator \<open>a\<close> and denominator \<open>b\<close> of \<open>|x|\<close> it is
  the difference \<open>d\<close> of their bit lengths or \<open>d - 1\<close>.\<close>

definition binade :: "rat \<Rightarrow> int" where
  "binade x =
     (let (a, b) = quotient_of \<bar>x\<bar>; d = bitlen a - bitlen b
      in if pow2 d \<le> \<bar>x\<bar> then d else d - 1)"

text \<open>Rounding to the nearest integer, a tie going to the even one.\<close>

definition round_half_even :: "rat \<Rightarrow> int" where
  "round_half_even y =
     (let n = \<lfloor>y\<rfloor>; r = y - of_int n
      in if r < 1 / 2 then n else if 1 / 2 < r then n + 1
         else if even n then n else n + 1)"

text \<open>
  The binary64 rounding of an exact result (round to nearest, ties to even), before the
  check for overflow: 53 significant bits, so the spacing in the binade \<open>e\<close> is
  \<open>2 ** (e - 52)\<close>, and below \<open>2 ** -1022\<close> the spacing of the subnormal numbers.
\<close>

definition nearest_double :: "rat \<Rightarrow> rat" where
  "nearest_double x =
     (if x = 0 then 0
      else let u = pow2 (max (binade x) (- 1022) - 52)
           in of_int (round_half_even (x / u)) * u)"

text \<open>
  An exact result does not fit a float when rounding takes it to \<open>2 ** 1024\<close>: when its
  magnitude reaches \<open>2 ** 1024 - 2 ** 970\<close>, half a spacing above the largest float.
\<close>

definition too_large :: "rat \<Rightarrow> bool" where
  "too_large x = (pow2 1024 - pow2 970 \<le> \<bar>x\<bar>)"

text \<open>\<open>x + y\<close> on floats: the exact sum is rounded, and overflows to an infinity.\<close>

fun float_add :: "pyfloat \<Rightarrow> pyfloat \<Rightarrow> pyfloat" where
  "float_add (Finite a) (Finite b) =
     (if too_large (a + b) then (if 0 < a + b then PosInf else NegInf)
      else Finite (nearest_double (a + b)))"
| "float_add NaN y = NaN"
| "float_add x NaN = NaN"
| "float_add PosInf NegInf = NaN"
| "float_add NegInf PosInf = NaN"
| "float_add PosInf y = PosInf"
| "float_add x PosInf = PosInf"
| "float_add NegInf y = NegInf"
| "float_add x NegInf = NegInf"

text \<open>
  \<open>p / 10\<close> for integers: true division gives the float nearest to the quotient and raises
  \<open>OverflowError\<close> when that does not fit.  An exception is given by its text \<open>str(e)\<close>,
  which is all the handlers read; \<open>Inl\<close> holds it.
\<close>

definition div_by_10 :: "int \<Rightarrow> string + pyfloat" where
  "div_by_10 p =
     (if too_large (of_int p / 10) then Inl ''integer division result too large for a float''
      else Inr (Finite (nearest_double (of_int p / 10))))"

text \<open>
  \<open>round(x, 1)\<close> on a finite float: the exact value of \<open>x\<close> is rounded to one decimal, a tie
  going to the even digit, and the decimal is read back as the nearest float.
\<close>

definition py_round1 :: "rat \<Rightarrow> rat" where
  "py_round1 x = nearest_double (of_int (round_half_even (x * 10)) / 10)"

text \<open>
  \<open>round(min(total_risk, 10), 1)\<close>.  \<open>min\<close> gives the integer \<open>10\<close> when \<open>10 < total_risk\<close>
  and \<open>total_risk\<close> otherwise, also when it is a NaN; \<open>round\<close> leaves the integer, an
  infinity and a NaN as they are.
\<close>

definition capped_risk :: "pyfloat \<Rightarrow> pyfloat" where
  "capped_risk risk_sum =
     (case risk_sum of
        Finite x \<Rightarrow> if 10 < x then Finite 10 else Finite (py_round1 x)
      | PosInf \<Rightarrow> Finite 10
      | NegInf \<Rightarrow> NegInf
      | NaN \<Rightarrow> NaN)"

subsection \<open>Data\<close>

text \<open>
  A finding is a dictionary of the model's reply, read with \<open>.get\<close> and a default, so
  \<open>type\<close>, \<open>description\<close>, \<open>severity\<close> and \<open>confidence\<close> are optional.  \<open>source\<close>, \<open>url\<close>
  and \<open>published_at\<close> are always written by the analyzer.  The reply is not validated:
  a score is any integer (the scores from 1 to 10 the prompt asks for are such), or a
  value that is not a number, such as a string or \<open>null\<close>.  On a score that is not a
  number the expression \<open>(severity * confidence) / 10\<close> raises; \<open>Unscored msg\<close> is a finding
  with such a score, \<open>msg\<close> being the text of the exception it raises there, and nothing
  else of it is ever read.  A score that is a number with a fraction or an exponent (a
  Python \<open>float\<close>) or a boolean is outside this type.
\<close>

record finding =
  f_type :: "string option"
  f_description :: "string option"
  f_severity :: "int option"
  f_confidence :: "int option"
  f_source :: string
  f_url :: string
  f_published_at :: string

datatype reply_finding = Scored finding | Unscored string

record source_entry =
  s_url :: string
  s_title :: string
  s_publication :: string
  s_date :: string

record analysis =
  has_negative_news :: bool
  risk_score :: pyfloat
  summary :: string
  findings :: "finding list"
  key_concerns :: "string list"
  sources :: "source_entry list"

text \<open>The entry of \<open>finding_types\<close> for one finding type.\<close>

record type_data =
  t_count :: nat
  t_severity :: int
  t_confidence :: int
  t_description :: string

record entity =
  e_full_name :: "pyval option"
  e_name :: "pyval option"
  e_industry :: "pyval option"

text \<open>
  What the completion call and the parsing of its reply give for one chunk:
  \<^item> \<open>LlmRaises\<close>: something inside the \<open>try\<close> raised (the request, or reading the reply);
  \<^item> \<open>LlmAnalysis fs\<close>: the reply was parsed, by \<open>json.loads\<close> or recovered by
    \<open>safe_extract_json\<close>, into a dictionary; \<open>fs\<close> is its \<open>findings\<close> list, \<open>None\<close> when
    the key is absent or not a list;
  \<^item> \<open>LlmUnparsed text\<close>: neither parse gave a non-empty value; \<open>text\<close> is the reply.
\<close>

datatype llm_reply = LlmRaises | LlmAnalysis "reply_finding list option" | LlmUnparsed string

text \<open>\<open>get_openai_client\<close>: the mock client (dummy key), a live client, or
  \<open>ValueError("No OpenAI API key provided")\<close>.\<close>

datatype client_mode = MockClient | LiveClient | NoClient

subsection \<open>Aggregation of the collected findings\<close>

definition severity_of :: "finding \<Rightarrow> int" where
  "severity_of f = (case f_severity f of Some s \<Rightarrow> s | None \<Rightarrow> 5)"

definition confidence_of :: "finding \<Rightarrow> int" where
  "confidence_of f = (case f_confidence f of Some c \<Rightarrow> c | None \<Rightarrow> 5)"

text \<open>
  The loop \<open>total_risk += (severity * confidence) / 10\<close>, which starts from the integer
  \<open>0\<close>.  It raises at the first finding with a score that is not a number, or whose
  quotient does not fit a float.
\<close>

fun total_risk :: "reply_finding list \<Rightarrow> pyfloat \<Rightarrow> string + pyfloat" where
  "total_risk [] acc = Inr acc"
| "total_risk (Unscored msg # fs) acc = Inl msg"
| "total_risk (Scored f # fs) acc =
     (case div_by_10 (severity_of f * confidence_of f) of
        Inl msg \<Rightarrow> Inl msg
      | Inr t \<Rightarrow> total_risk fs (float_add acc t))"

text \<open>The findings with integer scores; once the loop above has not raised, these are
  all the findings.\<close>

fun scored :: "reply_finding list \<Rightarrow> finding list" where
  "scored [] = []"
| "scored (Scored f # fs) = f # scored fs"
| "scored (Unscored msg # fs) = scored fs"

text \<open>\<open>finding.get('type')\<close> inside an f-string.\<close>

definition show_opt :: "string option \<Rightarrow> string" where
  "show_opt v = (case v of Some s \<Rightarrow> s | None \<Rightarrow> ''None'')"

text \<open>The summary line of the finding with index \<open>i\<close> (\<open>i < 3\<close>, so \<open>i + 1\<close> is one digit).\<close>

definition summary_item :: "nat \<Rightarrow> finding \<Rightarrow> string" where
  "summary_item i f =
     [char_of (48 + (i + 1))] @ '') '' @ show_opt (f_type f) @ '': '' @
     show_opt (f_description f) @ ''; ''"

definition findings_summary :: "finding list \<Rightarrow> string" where
  "findings_summary all_findings =
     ''Negative news detected with the following concerns: '' @
     concat (map (\<lambda>(i, f). summary_item i f) (enumerate 0 (take 3 all_findings)))"

text \<open>A Python dictionary that keeps insertion order: assignment to a present key
  replaces the value in place, assignment to a new key appends.\<close>

fun dict_set :: "'k \<Rightarrow> 'v \<Rightarrow> ('k \<times> 'v) list \<Rightarrow> ('k \<times> 'v) list" where
  "dict_set k v [] = [(k, v)]"
| "dict_set k v ((k', v') # kvs) =
     (if k' = k then (k, v) # kvs else (k', v') # dict_set k v kvs)"

text \<open>One round of the loop over \<open>all_findings\<close> that fills \<open>finding_types\<close>.  The
  comparison that may replace the description reads the sums after they were
  increased by the current finding, as the source does.\<close>

definition note_finding :: "finding \<Rightarrow> (string \<times> type_data) list \<Rightarrow> (string \<times> type_data) list" where
  "note_finding f finding_types =
     (let finding_type = (case f_type f of Some t \<Rightarrow> t | None \<Rightarrow> ''Unknown'');
          d0 = (case map_of finding_types finding_type of
                  Some d \<Rightarrow> d
                | None \<Rightarrow> \<lparr> t_count = 0, t_severity = 0, t_confidence = 0, t_description = [] \<rparr>);
          d1 = d0 \<lparr> t_count := t_count d0 + 1,
                    t_severity := t_severity d0 + severity_of f,
                    t_confidence := t_confidence d0 + confidence_of f \<rparr>;
          description = (case f_description f of Some s \<Rightarrow> s | None \<Rightarrow> []);
          d2 = (if t_description d1 = [] then d1 \<lparr> t_description := description \<rparr>
                else if severity_of f * confidence_of f > t_severity d1 * t_confidence d1
                then d1 \<lparr> t_description := description \<rparr>
                else d1)
      in dict_set finding_type d2 finding_types)"

fun group_findings :: "finding list \<Rightarrow> (string \<times> type_data) list \<Rightarrow> (string \<times> type_data) list" where
  "group_findings [] finding_types = finding_types"
| "group_findings (f # fs) finding_types = group_findings fs (note_finding f finding_types)"

text \<open>The sort key \<open>(count, severity * confidence)\<close>, ordered lexicographically.\<close>

definition concern_key :: "string \<times> type_data \<Rightarrow> nat \<times> int" where
  "concern_key x = (t_count (snd x), t_severity (snd x) * t_confidence (snd x))"

text \<open>\<open>sorted(items, key=..., reverse=True)\<close>: Python reverses the list, sorts it stably in
  ascending order and reverses the result, so that equal keys keep their order.\<close>

definition sorted_reverse :: "('a \<Rightarrow> 'k::linorder) \<Rightarrow> 'a list \<Rightarrow> 'a list" where
  "sorted_reverse key xs = rev (sort_key key (rev xs))"

definition compile_key_concerns :: "finding list \<Rightarrow> string list" where
  "compile_key_concerns all_findings =
     map (\<lambda>(type_name, d). type_name @ '': '' @ t_description d)
       (take 5 (sorted_reverse concern_key (group_findings all_findings [])))"

text \<open>The loop that builds \<open>sources\<close>; the second argument is \<open>source_urls\<close>.\<close>

fun unique_sources :: "finding list \<Rightarrow> string list \<Rightarrow> source_entry list" where
  "unique_sources [] source_urls = []"
| "unique_sources (f # fs) source_urls =
     (if f_url f \<noteq> [] \<and> f_url f \<notin> set source_urls
      then \<lparr> s_url = f_url f, s_title = [], s_publication = f_source f,
             s_date = f_published_at f \<rparr> # unique_sources fs (f_url f # source_urls)
      else unique_sources fs source_urls)"

text \<open>
  The block \<open>if all_findings: ... else: ...\<close> that ends the \<open>try\<close> of \<open>analyze_content\<close>.
  The only statement of it that can raise is the risk loop, which comes first; after
  it every finding has integer scores.
\<close>

definition aggregate :: "reply_finding list \<Rightarrow> string + analysis" where
  "aggregate all_findings =
     (if all_findings \<noteq> []
      then (case total_risk all_findings 0 of
              Inl msg \<Rightarrow> Inl msg
            | Inr risk_sum \<Rightarrow>
                Inr \<lparr> has_negative_news = True,
                      risk_score = capped_risk risk_sum,
                      summary = findings_summary (scored all_findings),
                      findings = scored all_findings,
                      key_concerns = compile_key_concerns (scored all_findings),
                      sources = unique_sources (scored all_findings) [] \<rparr>)
      else Inr \<lparr> has_negative_news = False, risk_score = 0,
                 summary = ''No negative news detected based on the analyzed content.'',
                 findings = [], key_concerns = [], sources = [] \<rparr>)"

subsection \<open>Collecting the findings of the chunks\<close>

text \<open>The entity name the analyzer works with after its normalisation of the entity
  dictionary: \<open>full_name\<close>, else \<open>name\<close>, else \<open>"Unknown"\<close>.\<close>

definition analysis_full_name :: "entity \<Rightarrow> string" where
  "analysis_full_name e =
     (if truthy (e_full_name e) then (case e_full_name e of Some v \<Rightarrow> py_str v | None \<Rightarrow> [])
      else if truthy (e_name e) then (case e_name e of Some v \<Rightarrow> py_str v | None \<Rightarrow> [])
      else ''Unknown'')"

definition forced_override :: "entity \<Rightarrow> bool" where
  "forced_override e =
     (let name_lower = py_lower (analysis_full_name e)
      in contains ''elon'' name_lower \<and> contains ''musk'' name_lower)"

text \<open>The three assignments \<open>finding["source"] = source\<close>, \<open>finding["url"] = url\<close>,
  \<open>finding["published_at"] = published_at\<close>.\<close>

fun attach :: "chunk \<Rightarrow> reply_finding \<Rightarrow> reply_finding" where
  "attach c (Scored f) =
     Scored (f \<lparr> f_source := c_source c, f_url := c_url c,
                 f_published_at := c_published_date c \<rparr>)"
| "attach c (Unscored msg) = Unscored msg"

definition blank_finding :: finding where
  "blank_finding = \<lparr> f_type = None, f_description = None, f_severity = None,
     f_confidence = None, f_source = [], f_url = [], f_published_at = [] \<rparr>"

definition override_finding :: "chunk \<Rightarrow> finding" where
  "override_finding c = blank_finding \<lparr>
     f_type := Some ''Controversial Business Decisions'',
     f_description := Some (''Controversial business decisions related to '' @ c_title c),
     f_severity := Some 6, f_confidence := Some 7 \<rparr>"

definition error_finding :: "chunk \<Rightarrow> finding" where
  "error_finding c = blank_finding \<lparr>
     f_type := Some ''Possible Controversy'',
     f_description :=
       Some (''Error analyzing content but potential controversy related to '' @ c_title c),
     f_severity := Some 4, f_confidence := Some 3 \<rparr>"

definition unparsed_finding :: finding where
  "unparsed_finding = blank_finding \<lparr>
     f_type := Some ''Unspecified negative information'',
     f_description := Some ''Possible negative information detected but could not be parsed'',
     f_severity := Some 5, f_confidence := Some 3 \<rparr>"

definition social_media_finding :: finding where
  "social_media_finding = \<lparr>
     f_type = Some ''Social Media Controversy'',
     f_description = Some ''Controversial statements and positions on social media platforms'',
     f_severity = Some 5, f_confidence = Some 7,
     f_source = ''Social Media'', f_url = ''https://twitter.com/elonmusk'',
     f_published_at = ''2023-01-01'' \<rparr>"

text \<open>The findings one chunk with non-empty text adds, given \<open>chunks_processed\<close> (already
  increased) and the findings collected so far.\<close>

definition chunk_findings ::
  "bool \<Rightarrow> (chunk \<Rightarrow> llm_reply) \<Rightarrow> chunk \<Rightarrow> nat \<Rightarrow> reply_finding list \<Rightarrow>
   reply_finding list" where
  "chunk_findings forced llm c chunks_processed all_findings =
     (if forced \<and> (chunks_processed \<ge> 3 \<or> length all_findings = 0)
      then [attach c (Scored (override_finding c))]
      else (case llm c of
              LlmRaises \<Rightarrow> (if forced then [attach c (Scored (error_finding c))] else [])
            | LlmAnalysis None \<Rightarrow> []
            | LlmAnalysis (Some fs) \<Rightarrow> map (attach c) fs
            | LlmUnparsed response_content \<Rightarrow>
                (if contains ''negative'' (py_lower response_content)
                 then [attach c (Scored unparsed_finding)] else [])))"

text \<open>The loop \<open>for chunk in chunks\<close> with its state \<open>all_findings\<close>, \<open>chunks_processed\<close>.
  A chunk produced by the chunker carries the key \<open>text\<close>, which is what is read.\<close>

fun collect :: "bool \<Rightarrow> (chunk \<Rightarrow> llm_reply) \<Rightarrow> chunk list \<Rightarrow> reply_finding list \<Rightarrow> nat \<Rightarrow>
    reply_finding list \<times> nat" where
  "collect forced llm [] all_findings chunks_processed = (all_findings, chunks_processed)"
| "collect forced llm (c # cs) all_findings chunks_processed =
     (if c_text c = [] then collect forced llm cs all_findings chunks_processed
      else collect forced llm cs
             (all_findings @ chunk_findings forced llm c (chunks_processed + 1) all_findings)
             (chunks_processed + 1))"

text \<open>\<open>all_findings\<close> as it stands when the aggregation starts: the loop, then the
  fallback finding of the name-keyed override.\<close>

definition collected_findings ::
  "bool \<Rightarrow> (chunk \<Rightarrow> llm_reply) \<Rightarrow> chunk list \<Rightarrow> reply_finding list" where
  "collected_findings forced llm chunks =
     (let r = collect forced llm chunks [] 0
      in if forced \<and> fst r = [] \<and> snd r > 0 then fst r @ [Scored social_media_finding]
         else fst r)"

subsection \<open>\<open>analyze_content\<close>\<close>

definition empty_analysis :: "string \<Rightarrow> analysis" where
  "empty_analysis text =
     \<lparr> has_negative_news = False, risk_score = 0, summary = text,
       findings = [], key_concerns = [], sources = [] \<rparr>"

text \<open>
  The outer \<open>try ... except Exception as e\<close> of \<open>analyze_content\<close>: what the \<open>try\<close> returns,
  or for an exception with text \<open>msg\<close> the result with the summary
  \<open>"Analysis failed: " + str(e)\<close>.
\<close>

definition handled :: "string + analysis \<Rightarrow> analysis" where
  "handled r = (case r of Inl msg \<Rightarrow> empty_analysis (''Analysis failed: '' @ msg) | Inr a \<Rightarrow> a)"

text \<open>The final block as \<open>analyze_content\<close> returns from it: inside the outer \<open>try\<close>.\<close>

definition compile_analysis :: "reply_finding list \<Rightarrow> analysis" where
  "compile_analysis all_findings = handled (aggregate all_findings)"

text \<open>The canned result of the testing mode.\<close>

definition mock_analysis :: analysis where
  "mock_analysis =
     \<lparr> has_negative_news = True, risk_score = Finite (13 / 2),
       summary = ''The analysis found several negative news items related to financial misconduct and workplace harassment allegations.'',
       findings =
         [\<lparr> f_type = Some ''Financial'',
            f_description = Some ''Alleged involvement in accounting irregularities at previous company'',
            f_severity = Some 7, f_confidence = Some 6,
            f_source = ''Mock Financial Times'',
            f_url = ''https://www.mock-financial-times.com/case'',
            f_published_at = ''2022-05-15'' \<rparr>,
          \<lparr> f_type = Some ''Personal Conduct'',
            f_description = Some ''Workplace harassment allegations from 2018'',
            f_severity = Some 8, f_confidence = Some 7,
            f_source = ''Mock News Daily'',
            f_url = ''https://www.mock-news-daily.com/case'',
            f_published_at = ''2019-03-22'' \<rparr>],
       key_concerns =
         [''Financial misconduct allegations'', ''Workplace harassment claims'',
          ''Legal disputes with former partners''],
       sources =
         [\<lparr> s_url = ''https://www.mock-financial-times.com/case'',
            s_title = ''Financial Case Investigation'',
            s_publication = ''Mock Financial Times'', s_date = ''2022-05-15'' \<rparr>,
          \<lparr> s_url = ''https://www.mock-news-daily.com/case'',
            s_title = ''Workplace Investigation Ongoing'',
            s_publication = ''Mock News Daily'', s_date = ''2019-03-22'' \<rparr>] \<rparr>"

text \<open>
  \<open>analyze_content\<close>.  Inside the outer \<open>try\<close> three things raise: the client cannot be
  built (\<open>NoClient\<close>, a \<open>ValueError\<close>), the entity of the state is \<open>None\<close> and \<open>entity.get\<close>
  raises an \<open>AttributeError\<close>, and the risk loop of the final block.
\<close>

definition analyze_content ::
  "client_mode \<Rightarrow> (chunk \<Rightarrow> llm_reply) \<Rightarrow> entity option \<Rightarrow> chunk list \<Rightarrow> analysis" where
  "analyze_content client llm ent chunks =
     (if chunks = [] then empty_analysis ''No content available for analysis''
      else (case client of
              NoClient \<Rightarrow> handled (Inl ''No OpenAI API key provided'')
            | MockClient \<Rightarrow> mock_analysis
            | LiveClient \<Rightarrow>
                (case ent of
                   None \<Rightarrow>
                     handled (Inl (apostrophe @ ''NoneType'' @ apostrophe @
                       '' object has no attribute '' @ apostrophe @ ''get'' @ apostrophe))
                 | Some e \<Rightarrow> compile_analysis (collected_findings (forced_override e) llm chunks))))"

section \<open>Structured-Data Recovery (agent/nodes/utils.py, safe\_extract\_json)\<close>

text \<open>A value \<open>json.loads\<close> can return.  A record is a \<open>JObject\<close> (a Python \<open>dict\<close>).\<close>

datatype json =
  JNull
| JBool bool
| JNum rat
| JStr string
| JArray "json list"
| JObject "(string \<times> json) list"

fun is_record :: "json \<Rightarrow> bool" where
  "is_record (JObject kvs) = True"
| "is_record v = False"

text \<open>
  The first occurrence of \<open>sub\<close> in a string: the text before it and the text after it.
  This is how the regular expressions below are read: \<open>re.search\<close> takes the leftmost
  match, and a lazy group \<open>[\s\S]*?\<close> ends at the first place where the rest of the
  pattern matches.
\<close>

fun cut :: "string \<Rightarrow> string \<Rightarrow> (string \<times> string) option" where
  "cut sub [] = (if sub = [] then Some ([], []) else None)"
| "cut sub (c # cs) =
     (if prefix sub (c # cs) then Some ([], drop (length sub) (c # cs))
      else map_option (\<lambda>(before, after). (c # before, after)) (cut sub cs))"

text \<open>\<open>str.strip()\<close>\<close>

definition py_strip :: "string \<Rightarrow> string" where
  "py_strip s = rev (dropWhile is_space (rev (dropWhile is_space s)))"

text \<open>
  \<open>re.search(r'```(?:json)?\s*([\s\S]*?)```', text)\<close>, group 1.  After the first fence an
  optional \<open>json\<close> and all white space are skipped; the group runs to the next fence.
  Giving back \<open>json\<close> or white space, or starting at a later fence, cannot find a
  closing fence that this reading misses, so there is no match when it finds none.
\<close>

definition fenced_block :: "string \<Rightarrow> string option" where
  "fenced_block text =
     (case cut ''```'' text of
        None \<Rightarrow> None
      | Some (before, rest) \<Rightarrow>
          (let rest1 = (if prefix ''json'' rest then drop 4 rest else rest);
               rest2 = dropWhile is_space rest1
           in map_option fst (cut ''```'' rest2)))"

text \<open>\<open>re.search(r'({[\s\S]*?})', text)\<close>, group 1: from the first opening brace to the first
  closing brace after it.\<close>

definition brace_block :: "string \<Rightarrow> string option" where
  "brace_block text =
     (case cut ''{'' text of
        None \<Rightarrow> None
      | Some (before, rest) \<Rightarrow>
          map_option (\<lambda>(inner, after). ''{'' @ inner @ ''}'') (cut ''}'' rest))"

text \<open>
  \<open>json.loads\<close> belongs to the Python library and is a parameter of the model.  On a
  text it returns a value, raises \<open>JSONDecodeError\<close>, or raises another exception (a
  plain \<open>ValueError\<close> for a number with more digits than the interpreter converts, a
  \<open>RecursionError\<close> for brackets nested too deeply), given by its text.
\<close>

datatype loaded = Parsed json | JSONDecodeError | OtherError string

text \<open>
  One attempt \<open>try: return json.loads(s) except json.JSONDecodeError: pass\<close>: it returns
  (\<open>Some (Inr v)\<close>), lets another exception escape (\<open>Some (Inl e)\<close>), or passes on to the
  next step (\<open>None\<close>).
\<close>

definition attempt :: "(string \<Rightarrow> loaded) \<Rightarrow> string \<Rightarrow> (string + json) option" where
  "attempt loads s =
     (case loads s of
        Parsed v \<Rightarrow> Some (Inr v)
      | JSONDecodeError \<Rightarrow> None
      | OtherError e \<Rightarrow> Some (Inl e))"

text \<open>\<open>safe_extract_json\<close>: what it returns (\<open>Inr\<close>), or the exception that escapes it
  (\<open>Inl\<close>).\<close>

definition safe_extract_json :: "(string \<Rightarrow> loaded) \<Rightarrow> string \<Rightarrow> string + json" where
  "safe_extract_json loads text =
     (case attempt loads text of
        Some r \<Rightarrow> r
      | None \<Rightarrow>
          (case (case fenced_block text of
                   Some json_str \<Rightarrow> attempt loads (py_strip json_str)
                 | None \<Rightarrow> None) of
             Some r \<Rightarrow> r
           | None \<Rightarrow>
               (case (case brace_block text of
                        Some json_str \<Rightarrow> attempt loads json_str
                      | None \<Rightarrow> None) of
                  Some r \<Rightarrow> r
                | None \<Rightarrow> Inr (JObject []))))"

section \<open>Search Adapter (agent/nodes/search.py, call\_web\_search)\<close>

record search_result =
  r_url :: string
  r_title :: string
  r_description :: string
  r_source :: string
  r_published_at :: string

text \<open>
  The input dictionary of \<open>call_web_search\<close>: the query lists under \<open>web_queries\<close> and
  \<open>news_queries\<close>, the legacy lists under \<open>queries\<close> (an absent list is empty), and the
  entity, \<open>None\<close> for the Python value \<open>None\<close> (an absent entity is the empty dictionary).
\<close>

record search_input =
  si_web_queries :: "string list"
  si_news_queries :: "string list"
  si_legacy_web :: "string list"
  si_legacy_news :: "string list"
  si_entity :: "entity option"

text \<open>One decimal digit, as \<open>str\<close> prints it.\<close>

definition digit :: "nat \<Rightarrow> string" where
  "digit n = [char_of (48 + n)]"

text \<open>The chain of fallbacks that chooses the queries.  The last one reads
  \<open>entity.get("full_name", "Unknown")\<close>, which raises when the entity is \<open>None\<close>; the result
  \<open>None\<close> stands for that exception.\<close>

definition select_queries :: "search_input \<Rightarrow> string list option" where
  "select_queries si =
     (let q1 = si_web_queries si;
          q2 = (if q1 = [] then si_legacy_web si else q1);
          q3 = (if q2 = [] then si_news_queries si else q2);
          q4 = (if q3 = [] then si_legacy_news si else q3)
      in if q4 \<noteq> [] then Some q4
         else (case si_entity si of
                 None \<Rightarrow> None
               | Some e \<Rightarrow>
                   (let name = (case e_full_name e of None \<Rightarrow> ''Unknown'' | Some v \<Rightarrow> py_str v)
                    in Some [name @ '' controversy'', name @ '' negative news'',
                             name @ '' scandal''])))"

text \<open>\<open>mock_web_search\<close>: for each of the first three queries (index \<open>i\<close>),
  \<open>min(3, top_k)\<close> generated results (index \<open>j\<close>).\<close>

definition mock_result :: "nat \<Rightarrow> string \<Rightarrow> nat \<Rightarrow> string \<Rightarrow> search_result" where
  "mock_result i query j name =
     \<lparr> r_url = ''https://www.mock-news-'' @ digit (i + 1) @ ''.com/article-'' @ digit (j + 1),
       r_title = ''Mock Result '' @ digit (j + 1) @ '' for '' @ apostrophe @ query @ apostrophe,
       r_description = ''This is a mock search result about '' @ name @ '' related to '' @
         apostrophe @ query @ apostrophe @ ''.'',
       r_source = ''Mock News Source '' @ digit (i + 1),
       r_published_at = (if j mod 2 = 0 then ''2023-01-01'' else ''2022-06-15'') \<rparr>"

text \<open>The result \<open>None\<close> stands for the exception \<open>entity.get\<close> raises on \<open>None\<close>, which
  happens as soon as one result is generated.\<close>

definition mock_web_search :: "string list \<Rightarrow> entity option \<Rightarrow> int \<Rightarrow> search_result list option" where
  "mock_web_search queries ent top_k =
     (let qs = take 3 queries; n = nat (min 3 top_k)
      in if qs = [] \<or> n = 0 then Some []
         else (case ent of
                 None \<Rightarrow> None
               | Some e \<Rightarrow>
                   (let name = (case e_full_name e of None \<Rightarrow> ''the entity'' | Some v \<Rightarrow> py_str v)
                    in Some (concat (map (\<lambda>(i, query). map (\<lambda>j. mock_result i query j name) [0..<n])
                                      (enumerate 0 qs))))))"

text \<open>\<open>perform_bing_search\<close>: the provider is a parameter, \<open>provider query = None\<close> when the
  request or the reading of its response raises; the function catches that and
  returns the empty list.\<close>

definition perform_bing_search :: "(string \<Rightarrow> search_result list option) \<Rightarrow> string \<Rightarrow> search_result list" where
  "perform_bing_search provider query =
     (case provider query of None \<Rightarrow> [] | Some results \<Rightarrow> results)"

text \<open>The loop that fills the dictionary \<open>unique_results\<close>, keyed by URL.\<close>

fun dedup_loop :: "search_result list \<Rightarrow> (string \<times> search_result) list \<Rightarrow> (string \<times> search_result) list" where
  "dedup_loop [] unique_results = unique_results"
| "dedup_loop (r # rs) unique_results =
     dedup_loop rs
       (if map_of unique_results (r_url r) = None then unique_results @ [(r_url r, r)]
        else unique_results)"

text \<open>The slice \<open>xs[:k]\<close>; a negative \<open>k\<close> drops the last \<open>-k\<close> elements.\<close>

definition py_take :: "int \<Rightarrow> 'a list \<Rightarrow> 'a list" where
  "py_take k xs = (if 0 \<le> k then take (nat k) xs else take (length xs - nat (- k)) xs)"

text \<open>
  \<open>call_web_search\<close>.  \<open>mock\<close> is the test of the testing mode (the dummy OpenAI key, or
  no Bing key).  Every exception ends in the outer handler, which returns the empty
  list.
\<close>

definition call_web_search ::
  "bool \<Rightarrow> (string \<Rightarrow> search_result list option) \<Rightarrow> search_input \<Rightarrow> int \<Rightarrow> search_result list" where
  "call_web_search mock provider si top_k =
     (case select_queries si of
        None \<Rightarrow> []
      | Some web_queries \<Rightarrow>
          (if mock
           then (case mock_web_search web_queries (si_entity si) top_k of
                   None \<Rightarrow> []
                 | Some results \<Rightarrow> results)
           else py_take top_k
                  (map snd (dedup_loop (concat (map (perform_bing_search provider) web_queries)) []))))"

section \<open>Report Formatter (agent/nodes/analysis.py, format\_results)\<close>

record report =
  rp_has_negative_news :: bool
  rp_risk_score :: pyfloat
  rp_summary :: string
  rp_key_concerns :: "string list"
  rp_findings :: "finding list"
  rp_sources :: "source_entry list"
  rp_entity :: "entity option"
  rp_recommendations :: "string list option"

text \<open>The fields \<open>format_results\<close> reads from the parsed reply; each may be absent.\<close>

record format_fields =
  ff_summary :: "string option"
  ff_key_concerns :: "string list option"
  ff_recommendations :: "string list option"

text \<open>
  What the completion call of the formatter and the parsing of its reply give:
  \<^item> \<open>FormatRaises msg\<close>: the request, or reading the parsed reply, raised an exception
    with the text \<open>msg\<close>;
  \<^item> \<open>FormatJson ff\<close>: \<open>json.loads\<close> parsed the reply into a dictionary;
  \<^item> \<open>FormatRecovered ff\<close>: \<open>json.loads\<close> failed and \<open>safe_extract_json\<close> gave a non-empty
    dictionary;
  \<^item> \<open>FormatUnparsed\<close>: neither gave anything.
\<close>

datatype format_reply =
  FormatRaises string
| FormatJson format_fields
| FormatRecovered format_fields
| FormatUnparsed

definition or_else :: "'a option \<Rightarrow> 'a \<Rightarrow> 'a" where
  "or_else v d = (case v of Some x \<Rightarrow> x | None \<Rightarrow> d)"

definition base_report :: "analysis \<Rightarrow> entity \<Rightarrow> report" where
  "base_report a e =
     \<lparr> rp_has_negative_news = has_negative_news a, rp_risk_score = risk_score a,
       rp_summary = summary a, rp_key_concerns = key_concerns a, rp_findings = findings a,
       rp_sources = sources a, rp_entity = Some e, rp_recommendations = None \<rparr>"

text \<open>
  \<open>format_results\<close>, for the analysis and the entity dictionary \<open>formatting_node\<close>
  passes.  The numeric fields are always those of the analysis.
\<close>

definition format_results :: "client_mode \<Rightarrow> format_reply \<Rightarrow> analysis \<Rightarrow> entity \<Rightarrow> report" where
  "format_results client reply a e =
     (let failed = (\<lambda>msg. (base_report a e) \<lparr> rp_summary := ''Error formatting results: '' @ msg,
                     rp_key_concerns := [], rp_sources := [] \<rparr>)
      in case client of
           NoClient \<Rightarrow> failed ''No OpenAI API key provided''
         | MockClient \<Rightarrow>
             (base_report a e) \<lparr> rp_summary :=
               (if has_negative_news a \<and> findings a \<noteq> []
                then ''The analysis identified concerns related to financial misconduct allegations and workplace harassment claims. The risk score is moderate, suggesting potential reputation issues that require attention.''
                else ''No negative news detected for this individual based on available sources.'') \<rparr>
         | LiveClient \<Rightarrow>
             (case reply of
                FormatRaises msg \<Rightarrow> failed msg
              | FormatJson ff \<Rightarrow>
                  (base_report a e) \<lparr> rp_summary := or_else (ff_summary ff) (summary a),
                    rp_key_concerns := or_else (ff_key_concerns ff) (key_concerns a),
                    rp_recommendations := ff_recommendations ff \<rparr>
              | FormatRecovered ff \<Rightarrow>
                  (base_report a e) \<lparr> rp_summary := or_else (ff_summary ff) (summary a),
                    rp_key_concerns := or_else (ff_key_concerns ff) (key_concerns a) \<rparr>
              | FormatUnparsed \<Rightarrow> base_report a e))"

section \<open>Pipeline Orchestrator (agent/graph.py)\<close>

subsection \<open>State\<close>

record queries =
  q_news_queries :: "string list"
  q_web_queries :: "string list"

text \<open>The dictionary \<open>output\<close>; a key that was not written is \<open>None\<close>.\<close>

record pipeline_output =
  out_entity :: "entity option"
  out_queries :: "queries option"
  out_search_results :: "search_result list option"
  out_scraped_content :: "document list option"
  out_content_chunks :: "chunk list option"
  out_analysis :: "analysis option"
  out_has_negative_news :: "bool option"
  out_risk_score :: "pyfloat option"
  out_summary :: "string option"
  out_report :: "report option"

text \<open>
  \<open>NegativeNewsState\<close>.  \<open>input\<close> and \<open>debug\<close> are dictionaries in insertion order; the
  other fields are \<open>None\<close> until a stage writes them.  \<open>error\<close> holds the message of the
  error marker.
\<close>

record news_state =
  st_input :: "(string \<times> pyval) list"
  st_entity :: "entity option"
  st_debug :: "(string \<times> string) list"
  st_output :: pipeline_output
  st_error :: "string option"
  st_queries :: "queries option"
  st_search_results :: "search_result list option"
  st_scraped_content :: "document list option"
  st_content_chunks :: "chunk list option"
  st_analysis :: "analysis option"
  st_report :: "report option"

text \<open>
  What a caller can pass as the request: a dictionary, an object with the attributes
  of \<open>UserInput\<close>, an object without the attribute \<open>name\<close> whose \<open>model_dump()\<close> or \<open>dict()\<close>
  gives a dictionary, or any other value, of which only the truth value matters.
\<close>

datatype user_input =
  DictInput "(string \<times> pyval) list"
| ObjectInput pyval pyval pyval pyval pyval
| DumpInput "(string \<times> pyval) list"
| OtherInput bool

text \<open>The collaborators of the pipeline and its configuration:
  \<open>resolve_entity\<close> and \<open>generate_queries\<close> (\<open>None\<close> when they raise), the search
  provider, the result cap, the content fetcher (\<open>scrape_content\<close> catches every
  exception), and the completion client with its replies.\<close>

record env =
  env_resolve :: "(string \<times> pyval) list \<Rightarrow> entity option"
  env_generate :: "entity \<Rightarrow> queries option"
  env_search_mock :: bool
  env_provider :: "string \<Rightarrow> search_result list option"
  env_top_k :: int
  env_scrape :: "search_result list \<Rightarrow> document list"
  env_client :: client_mode
  env_llm :: "chunk \<Rightarrow> llm_reply"
  env_format :: format_reply

subsection \<open>Initialisation\<close>

text \<open>\<open>not user_input\<close> is false for an object; \<open>user_input == {}\<close> holds for the empty
  dictionary.\<close>

fun input_truthy :: "user_input \<Rightarrow> bool" where
  "input_truthy (DictInput d) = (d \<noteq> [])"
| "input_truthy (ObjectInput n d na i j) = True"
| "input_truthy (DumpInput d) = True"
| "input_truthy (OtherInput t) = t"

definition input_empty :: "user_input \<Rightarrow> bool" where
  "input_empty u = (\<not> input_truthy u \<or> u = DictInput [])"

text \<open>\<open>d.get(key, default)\<close>\<close>

definition dict_get :: "(string \<times> pyval) list \<Rightarrow> string \<Rightarrow> pyval \<Rightarrow> pyval" where
  "dict_get d key dflt = (case map_of d key of Some v \<Rightarrow> v | None \<Rightarrow> dflt)"

definition input_of_dict :: "(string \<times> pyval) list \<Rightarrow> (string \<times> pyval) list" where
  "input_of_dict d =
     [(''name'', dict_get d ''name'' (PyStr ''Unknown'')),
      (''dob'', dict_get d ''dob'' PyNone),
      (''nationality'', dict_get d ''nationality'' PyNone),
      (''industry'', dict_get d ''industry'' PyNone),
      (''jobTitle'', dict_get d ''jobTitle'' PyNone)]"

fun input_data_of :: "user_input \<Rightarrow> (string \<times> pyval) list" where
  "input_data_of (DictInput d) = input_of_dict d"
| "input_data_of (ObjectInput n d na i j) =
     [(''name'', n), (''dob'', d), (''nationality'', na), (''industry'', i), (''jobTitle'', j)]"
| "input_data_of (DumpInput d) = input_of_dict d"
| "input_data_of (OtherInput t) = [(''name'', PyStr ''Unknown Entity'')]"

definition empty_output :: pipeline_output where
  "empty_output =
     \<lparr> out_entity = None, out_queries = None, out_search_results = None,
       out_scraped_content = None, out_content_chunks = None, out_analysis = None,
       out_has_negative_news = None, out_risk_score = None, out_summary = None,
       out_report = None \<rparr>"

text \<open>
  \<open>initialize_state\<close>.  The first argument is the module variable \<open>_last_input_data\<close>
  (\<open>None\<close> until \<open>invoke_negative_news_check\<close> has run once): when the input is empty
  and the variable holds a true value, that value replaces the input.  Nothing in the
  body raises on these inputs, so the \<open>except\<close> branch, which would set the error
  marker, is not entered.
\<close>

definition initialize_state :: "user_input option \<Rightarrow> user_input \<Rightarrow> news_state" where
  "initialize_state last_input_data user_input =
     (let user_input' =
            (case last_input_data of
               Some cached \<Rightarrow>
                 (if input_empty user_input \<and> input_truthy cached then cached else user_input)
             | None \<Rightarrow> user_input)
      in \<lparr> st_input = input_data_of user_input', st_entity = None,
           st_debug = [(''initialization'', ''success'')], st_output = empty_output,
           st_error = None, st_queries = None, st_search_results = None,
           st_scraped_content = None, st_content_chunks = None, st_analysis = None,
           st_report = None \<rparr>)"

subsection \<open>Stages\<close>

text \<open>\<open>{**state.get("debug", {}), stage: tag}\<close>\<close>

definition mark :: "string \<Rightarrow> string \<Rightarrow> news_state \<Rightarrow> news_state" where
  "mark stage tag s = s \<lparr> st_debug := dict_set stage tag (st_debug s) \<rparr>"

text \<open>\<open>state["input"]["name"]\<close>; \<open>initialize_state\<close> always writes the key.\<close>

definition input_name :: "news_state \<Rightarrow> pyval" where
  "input_name s = dict_get (st_input s) ''name'' PyNone"

definition entity_resolution_node :: "env \<Rightarrow> news_state \<Rightarrow> news_state" where
  "entity_resolution_node ev s =
     (if st_error s \<noteq> None then s
      else (case env_resolve ev (st_input s) of
              Some e \<Rightarrow>
                mark ''entity_resolution'' ''success''
                  (s \<lparr> st_entity := Some e,
                       st_output := (st_output s) \<lparr> out_entity := Some e \<rparr> \<rparr>)
            | None \<Rightarrow>
                (let fallback_entity =
                       \<lparr> e_full_name = Some (input_name s), e_name = None,
                         e_industry = Some (dict_get (st_input s) ''industry'' (PyStr ''Unknown'')) \<rparr>
                 in mark ''entity_resolution'' ''failed''
                      (s \<lparr> st_entity := Some fallback_entity,
                           st_output := (st_output s) \<lparr> out_entity := Some fallback_entity \<rparr> \<rparr>))))"

text \<open>Truth value of an entity dictionary: the record carries the keys the pipeline
  reads, and a dictionary with none of them is taken to be empty.\<close>

definition entity_truthy :: "entity option \<Rightarrow> bool" where
  "entity_truthy ent =
     (case ent of
        None \<Rightarrow> False
      | Some e \<Rightarrow> e_full_name e \<noteq> None \<or> e_name e \<noteq> None \<or> e_industry e \<noteq> None)"

definition query_generation_node :: "env \<Rightarrow> news_state \<Rightarrow> news_state" where
  "query_generation_node ev s =
     (if st_error s \<noteq> None then s
      else (let entity_info =
                  (if entity_truthy (st_entity s) then the (st_entity s)
                   else \<lparr> e_full_name = Some (input_name s), e_name = None, e_industry = None \<rparr>)
            in case env_generate ev entity_info of
                 Some q \<Rightarrow>
                   mark ''query_generation'' ''success''
                     (s \<lparr> st_queries := Some q,
                          st_output := (st_output s) \<lparr> out_queries := Some q \<rparr> \<rparr>)
               | None \<Rightarrow>
                   (let name = py_str (if entity_truthy (st_entity s)
                                       then or_else (e_full_name (the (st_entity s))) (input_name s)
                                       else input_name s);
                        fallback_queries =
                          [name @ '' scandal'', name @ '' controversy'', name @ '' negative news''];
                        q = \<lparr> q_news_queries = fallback_queries, q_web_queries = fallback_queries \<rparr>
                    in mark ''query_generation'' ''failed''
                         (s \<lparr> st_queries := Some q,
                              st_output := (st_output s) \<lparr> out_queries := Some q \<rparr> \<rparr>))))"

text \<open>
  \<open>search_node\<close>.  Its \<open>except\<close> branch, the only place that tags the search stage
  \<open>failed\<close> and sets the error marker, is entered when there are no queries;
  \<open>call_web_search\<close> itself returns a list whatever the provider does.
\<close>

definition search_node :: "env \<Rightarrow> news_state \<Rightarrow> news_state" where
  "search_node ev s =
     (if st_error s \<noteq> None then s
      else (case st_queries s of
              None \<Rightarrow>
                (mark ''search'' ''failed'' (s \<lparr> st_search_results := Some [] \<rparr>))
                  \<lparr> st_error := Some ''Search failed: No queries available for search'' \<rparr>
            | Some q \<Rightarrow>
                (let search_input =
                       \<lparr> si_web_queries = q_web_queries q, si_news_queries = q_news_queries q,
                         si_legacy_web = [], si_legacy_news = [], si_entity = st_entity s \<rparr>;
                     search_results =
                       call_web_search (env_search_mock ev) (env_provider ev) search_input
                         (env_top_k ev)
                 in mark ''search'' ''success''
                      (s \<lparr> st_search_results := Some search_results,
                           st_output := (st_output s) \<lparr> out_search_results := Some search_results \<rparr> \<rparr>))))"

definition scraping_node :: "env \<Rightarrow> news_state \<Rightarrow> news_state" where
  "scraping_node ev s =
     (if st_error s \<noteq> None then s
      else if st_search_results s = None \<or> st_search_results s = Some []
      then mark ''scraping'' ''failed'' (s \<lparr> st_scraped_content := Some [] \<rparr>)
      else (let scraped_content = env_scrape ev (the (st_search_results s))
            in mark ''scraping'' ''success''
                 (s \<lparr> st_scraped_content := Some scraped_content,
                      st_output := (st_output s) \<lparr> out_scraped_content := Some scraped_content \<rparr> \<rparr>)))"

definition chunking_node :: "news_state \<Rightarrow> news_state" where
  "chunking_node s =
     (if st_error s \<noteq> None then s
      else if st_scraped_content s = None \<or> st_scraped_content s = Some []
      then mark ''chunking'' ''failed'' (s \<lparr> st_content_chunks := Some [] \<rparr>)
      else (let content_chunks = chunk_content (the (st_scraped_content s))
            in mark ''chunking'' ''success''
                 (s \<lparr> st_content_chunks := Some content_chunks,
                      st_output := (st_output s) \<lparr> out_content_chunks := Some content_chunks \<rparr> \<rparr>)))"

text \<open>
  What the analyzer writes into the entity dictionary, which the state shares: a
  \<open>full_name\<close> and a \<open>name\<close>, and \<open>None\<close> under a missing \<open>industry\<close>.
\<close>

definition normalise_entity :: "entity \<Rightarrow> entity" where
  "normalise_entity e =
     (let full_name = PyStr (analysis_full_name e)
      in \<lparr> e_full_name = Some full_name,
           e_name = (if truthy (e_name e) then e_name e else Some full_name),
           e_industry = (case e_industry e of None \<Rightarrow> Some PyNone | Some v \<Rightarrow> Some v) \<rparr>)"

text \<open>
  \<open>analysis_node\<close>.  It is skipped only when the error marker is set and the chunk
  list is the empty list; \<open>analyze_content\<close> catches its own exceptions, so the
  \<open>except\<close> branch of the node is not entered.
\<close>

definition analysis_node :: "env \<Rightarrow> news_state \<Rightarrow> news_state" where
  "analysis_node ev s =
     (if st_error s \<noteq> None \<and> st_content_chunks s = Some [] then s
      else (let content_chunks = or_else (st_content_chunks s) [];
                analysis_result =
                  (if content_chunks = []
                   then empty_analysis ''No content was available for analysis''
                   else analyze_content (env_client ev) (env_llm ev) (st_entity s) content_chunks);
                entity' =
                  (if content_chunks \<noteq> [] \<and> env_client ev = LiveClient
                   then map_option normalise_entity (st_entity s) else st_entity s);
                shared = (\<lambda>ent. if ent = None then None else entity')
            in mark ''analysis'' ''success''
                 (s \<lparr> st_analysis := Some analysis_result,
                      st_entity := entity',
                      st_output := (st_output s)
                        \<lparr> out_entity := shared (out_entity (st_output s)),
                          out_analysis := Some analysis_result,
                          out_has_negative_news := Some (has_negative_news analysis_result),
                          out_risk_score := Some (risk_score analysis_result),
                          out_summary := Some (summary analysis_result) \<rparr> \<rparr>)))"

definition default_report :: "string \<Rightarrow> report" where
  "default_report text =
     \<lparr> rp_has_negative_news = False, rp_risk_score = 0, rp_summary = text,
       rp_key_concerns = [], rp_findings = [], rp_sources = [], rp_entity = None,
       rp_recommendations = None \<rparr>"

text \<open>The last lines of \<open>formatting_node\<close>: the three top-level keys of \<open>output\<close> are
  written only when they are missing.\<close>

definition finish_output :: "report \<Rightarrow> pipeline_output \<Rightarrow> pipeline_output" where
  "finish_output r out =
     out \<lparr> out_report := Some r,
           out_has_negative_news :=
             Some (or_else (out_has_negative_news out) (rp_has_negative_news r)),
           out_risk_score := Some (or_else (out_risk_score out) (rp_risk_score r)),
           out_summary := Some (or_else (out_summary out) (rp_summary r)) \<rparr>"

text \<open>\<open>formatting_node\<close> always runs.  Its \<open>except\<close> branch is entered when the entity of
  the state is \<open>None\<close> (\<open>entity.get\<close> raises).\<close>

definition formatting_node :: "env \<Rightarrow> news_state \<Rightarrow> news_state" where
  "formatting_node ev s =
     (case st_entity s of
        None \<Rightarrow>
          (let r = default_report
                     (''Formatting failed: '' @ apostrophe @ ''NoneType'' @ apostrophe @
                      '' object has no attribute '' @ apostrophe @ ''get'' @ apostrophe)
           in mark ''formatting'' ''failed''
                (s \<lparr> st_report := Some r, st_output := finish_output r (st_output s) \<rparr>))
      | Some e \<Rightarrow>
          (let r = (case st_analysis s of
                      None \<Rightarrow> default_report ''No analysis was available to format''
                    | Some a \<Rightarrow> format_results (env_client ev) (env_format ev) a e)
           in mark ''formatting'' ''success''
                (s \<lparr> st_report := Some r, st_output := finish_output r (st_output s) \<rparr>)))"

subsection \<open>The graph and its wrapper\<close>

text \<open>The compiled graph: the eight nodes in their fixed order.\<close>

definition run_graph :: "env \<Rightarrow> user_input option \<Rightarrow> user_input \<Rightarrow> news_state" where
  "run_graph ev last_input_data user_input =
     formatting_node ev
       (analysis_node ev
          (chunking_node
             (scraping_node ev
                (search_node ev
                   (query_generation_node ev
                      (entity_resolution_node ev
                         (initialize_state last_input_data user_input)))))))"

text \<open>
  \<open>invoke_negative_news_check\<close>: it stores its input in \<open>_last_input_data\<close>, runs the
  graph on that input, as the comment in the source says, and completes the output.
  The result is the new value of the variable and the output.  Every stage catches
  its own failures, so the wrapper's \<open>except\<close> branch is not entered.
\<close>

definition invoke_negative_news_check ::
  "env \<Rightarrow> user_input option \<Rightarrow> user_input \<Rightarrow> user_input option \<times> pipeline_output" where
  "invoke_negative_news_check ev last_input_data input_data =
     (let last_input_data' = Some input_data;
          result = run_graph ev last_input_data' input_data;
          out = st_output result;
          out1 = (if \<not> entity_truthy (out_entity out) \<and> entity_truthy (st_entity result)
                  then out \<lparr> out_entity := st_entity result \<rparr> else out);
          out2 = (if out_report out1 = None \<and> st_report result \<noteq> None
                  then out1 \<lparr> out_report := st_report result \<rparr> else out1);
          out3 = (if out_analysis out2 = None \<and> st_analysis result \<noteq> None
                  then out2 \<lparr> out_analysis := st_analysis result \<rparr> else out2)
      in (last_input_data',
          out3 \<lparr> out_has_negative_news := Some (or_else (out_has_negative_news out3) False),
                 out_risk_score := Some (or_else (out_risk_score out3) 0),
                 out_summary := Some (or_else (out_summary out3) ''No summary available'') \<rparr>))"

section \<open>Notions used in the statements and proofs\<close>

subsection \<open>Chunker: notions used in the proofs\<close>

text \<open>\<open>sumlen\<close> is the quantity the loop keeps in \<open>current_length\<close>: the characters of
  the paragraphs, separators not counted.\<close>

definition sumlen :: "string list \<Rightarrow> nat" where
  "sumlen ps = sum_list (map length ps)"

text \<open>The paragraph lists of the chunks \<open>chunk_loop\<close> emits (the same recursion, with the
  chunk records left out).\<close>

fun groups :: "string list \<Rightarrow> string list \<Rightarrow> nat \<Rightarrow> string list list" where
  "groups [] cur len = (if cur \<noteq> [] \<and> len > 0 then [cur] else [])"
| "groups (p # ps) cur len =
     (let cur' = cur @ [p]; len' = len + length p
      in if len' \<ge> chunk_size
         then cur' # (let r = take_overlap (rev cur') [] 0 in groups ps (fst r) (snd r))
         else groups ps cur' len')"

text \<open>Two paragraph lists share an overlap: a run of paragraphs with at least
  \<^term>\<open>overlap\<close> characters ends the first and starts the second.\<close>

definition shares :: "string list \<Rightarrow> string list \<Rightarrow> bool" where
  "shares a b = (\<exists>ov. ov \<noteq> [] \<and> overlap \<le> sumlen ov \<and> suffix ov a \<and> prefix ov b)"

text \<open>The paragraph characters of a chunk of document \<open>d\<close>: its text after the header,
  newline separators not counted.\<close>

definition para_chars :: "document \<Rightarrow> chunk \<Rightarrow> nat" where
  "para_chars d c = length (filter (\<lambda>x. x \<noteq> nl) (drop (length (metadata_header d)) (c_text c)))"

text \<open>Example documents: five lines of 500 characters, an empty body, a short body
  stored under the key \<open>text\<close>.\<close>

definition para500 :: string where
  "para500 = replicate 500 CHR ''a''"

definition doc_five :: document where
  "doc_five = \<lparr> d_url = ''u'', d_title = ''t'', d_source = ''s'', d_published_date = ''2024'',
     d_content = Some (join_nl [para500, para500, para500, para500, para500]), d_text = None \<rparr>"

definition doc_empty :: document where
  "doc_empty = \<lparr> d_url = ''u'', d_title = ''t'', d_source = ''s'', d_published_date = ''2024'',
     d_content = Some [], d_text = None \<rparr>"

definition doc_short :: document where
  "doc_short = \<lparr> d_url = ''u'', d_title = ''t'', d_source = ''s'', d_published_date = ''2024'',
     d_content = None, d_text = Some ''short body'' \<rparr>"

subsection \<open>Analyzer: notions used in the statements\<close>


text \<open>A float that is not negative: a finite one from 0 on, or the positive infinity.\<close>

fun nonneg_float :: "pyfloat \<Rightarrow> bool" where
  "nonneg_float (Finite x) = (0 \<le> x)"
| "nonneg_float PosInf = True"
| "nonneg_float NegInf = False"
| "nonneg_float NaN = False"

text \<open>Example data: a finding with integer scores as the loop leaves it, a finding whose
  severity is the string \<open>High\<close> (with the text of the \<open>TypeError\<close> that
  \<open>("High" * 5) / 10\<close> raises), a chunk, an entity.\<close>

definition mk_finding :: "string \<Rightarrow> string \<Rightarrow> int \<Rightarrow> int \<Rightarrow> reply_finding" where
  "mk_finding ty description severity confidence =
     Scored \<lparr> f_type = Some ty, f_description = Some description, f_severity = Some severity,
       f_confidence = Some confidence, f_source = ''Daily'', f_url = ''https://daily.example/a'',
       f_published_at = ''2024-01-01'' \<rparr>"


definition chunk_a :: chunk where
  "chunk_a = \<lparr> c_url = ''https://daily.example/a'', c_title = ''Title'', c_source = ''Daily'',
     c_published_date = ''2024-01-01'', c_content = ''body'', c_text = ''body'' \<rparr>"

definition plain_entity :: entity where
  "plain_entity = \<lparr> e_full_name = Some (PyStr ''Jane Smith''), e_name = None, e_industry = None \<rparr>"

subsection \<open>Structured-Data Recovery: notions used in the statements\<close>

text \<open>
  The spec's words for step 3, the first balanced brace-delimited substring: from an
  opening brace, braces are counted until the one that closes it; the leftmost opening
  brace that is closed this way starts the substring.  \<open>scan_balanced\<close> reads the text
  after an opening brace, with the number of braces still open inside and the
  substring read so far.
\<close>

fun scan_balanced :: "string \<Rightarrow> nat \<Rightarrow> string \<Rightarrow> string option" where
  "scan_balanced [] depth acc = None"
| "scan_balanced (c # cs) depth acc =
     (if c = CHR ''{'' then scan_balanced cs (Suc depth) (acc @ [c])
      else if c = CHR ''}''
      then (if depth = 0 then Some (acc @ [c]) else scan_balanced cs (depth - 1) (acc @ [c]))
      else scan_balanced cs depth (acc @ [c]))"

fun spec_first_balanced :: "string \<Rightarrow> string option" where
  "spec_first_balanced [] = None"
| "spec_first_balanced (c # cs) =
     (if c = CHR ''{''
      then (case scan_balanced cs 0 [c] of
              Some b \<Rightarrow> Some b
            | None \<Rightarrow> spec_first_balanced cs)
      else spec_first_balanced cs)"

text \<open>
  A finite table of \<open>json.loads\<close>, for the examples: its value on three texts, and
  \<open>JSONDecodeError\<close> on every other text.  It agrees with \<open>json.loads\<close> on each text the
  examples pass to it.
\<close>

definition sample_loads :: "string \<Rightarrow> loaded" where
  \<open>sample_loads t =
     (if t = ''[1, 2]'' then Parsed (JArray [JNum 1, JNum 2])
      else if t = ''{"a": 1}'' then Parsed (JObject [(''a'', JNum 1)])
      else if t = ''{"a": {"b": 1}}'' then Parsed (JObject [(''a'', JObject [(''b'', JNum 1)])])
      else JSONDecodeError)\<close>

definition nested_text :: string where
  \<open>nested_text = ''Result: {"a": {"b": 1}} done''\<close>

definition flat_text :: string where
  \<open>flat_text = ''Result: {"a": 1} done''\<close>

subsection \<open>Search Adapter: notions used in the proofs\<close>

text \<open>The results whose URL was not seen before, in their order.\<close>

fun keep_first :: "search_result list \<Rightarrow> string set \<Rightarrow> search_result list" where
  "keep_first [] seen = []"
| "keep_first (r # rs) seen =
     (if r_url r \<in> seen then keep_first rs seen else r # keep_first rs (insert (r_url r) seen))"

text \<open>Every entry of \<open>unique_results\<close> is stored under its own URL.\<close>

definition keyed :: "(string \<times> search_result) list \<Rightarrow> bool" where
  "keyed u = (map fst u = map (\<lambda>x. r_url (snd x)) u)"

text \<open>Example data: an input with three web queries, and a provider that answers the
  first and the third of them (with one URL in common) and fails on the second.\<close>

definition three_queries :: search_input where
  "three_queries = \<lparr> si_web_queries = [''a scandal'', ''a fraud'', ''a lawsuit''],
     si_news_queries = [], si_legacy_web = [], si_legacy_news = [],
     si_entity = Some plain_entity \<rparr>"

definition result_at :: "string \<Rightarrow> string \<Rightarrow> search_result" where
  "result_at url title = \<lparr> r_url = url, r_title = title, r_description = [], r_source = [],
     r_published_at = [] \<rparr>"

definition sample_provider :: "string \<Rightarrow> search_result list option" where
  "sample_provider query =
     (if query = ''a scandal'' then Some [result_at ''u1'' ''first'', result_at ''u2'' ''second'']
      else if query = ''a fraud'' then None
      else Some [result_at ''u1'' ''third'', result_at ''u3'' ''fourth''])"

subsection \<open>Pipeline: notions used in the statements\<close>

text \<open>Example data: collaborators with a live search provider that fails on every
  query, and three requests.\<close>

definition failing_env :: env where
  "failing_env =
     \<lparr> env_resolve = (\<lambda>i. Some plain_entity),
       env_generate = (\<lambda>e. Some \<lparr> q_news_queries = [''Jane Smith scandal''],
                                    q_web_queries = [''Jane Smith fraud''] \<rparr>),
       env_search_mock = False, env_provider = (\<lambda>q. None), env_top_k = 10,
       env_scrape = (\<lambda>rs. []), env_client = LiveClient, env_llm = (\<lambda>c. LlmRaises),
       env_format = FormatUnparsed \<rparr>"

definition jane :: user_input where
  "jane = DictInput [(''name'', PyStr ''Jane Smith'')]"

definition alice :: user_input where
  "alice = DictInput [(''name'', PyStr ''Alice'')]"

definition bob :: user_input where
  "bob = DictInput [(''name'', PyStr ''Bob'')]"

text \<open>The state that reaches the search stage: no error marker, an entity, queries.\<close>

definition ready :: "news_state \<Rightarrow> bool" where
  "ready s = (st_error s = None \<and> st_entity s \<noteq> None \<and> st_queries s \<noteq> None)"

section \<open>Content Chunker: proofs\<close>

lemma chunk_loop_groups:
  "chunk_loop d ps cur len = map (\<lambda>g. mk_chunk d (metadata_header d @ join_nl g)) (groups ps cur len)"
  by (induction ps cur len rule: groups.induct) (simp_all add: Let_def)

lemma take_overlap_shape:
  "take_overlap rs acc n = (ov, ol) \<Longrightarrow> n = sumlen acc \<Longrightarrow>
     ol = sumlen ov \<and> (\<exists>k. ov = rev (take k rs) @ acc)"
proof (induction rs acc n rule: take_overlap.induct)
  case (1 acc n)
  then show ?case by auto
next
  case (2 para rest acc n)
  show ?case
  proof (cases "n + length para \<ge> overlap")
    case True
    with 2 have "ov = para # acc" "ol = n + length para" by (simp_all add: Let_def)
    with 2 show ?thesis by (auto simp: sumlen_def intro: exI[of _ 1])
  next
    case False
    with 2 have eq: "take_overlap rest (para # acc) (n + length para) = (ov, ol)"
      by (simp add: Let_def)
    from 2 have "n + length para = sumlen (para # acc)" by (simp add: sumlen_def)
    with 2(1)[OF refl refl False eq] obtain k where
      "ol = sumlen ov" "ov = rev (take k rest) @ para # acc" by auto
    then show ?thesis by (auto intro: exI[of _ "Suc k"])
  qed
qed

lemma take_overlap_enough:
  "take_overlap rs acc n = (ov, ol) \<Longrightarrow> overlap \<le> n + sumlen rs \<Longrightarrow> rs \<noteq> [] \<Longrightarrow> overlap \<le> ol"
proof (induction rs acc n rule: take_overlap.induct)
  case (1 acc n)
  then show ?case by simp
next
  case (2 para rest acc n)
  show ?case
  proof (cases "n + length para \<ge> overlap")
    case True
    with 2 show ?thesis by (simp add: Let_def)
  next
    case False
    with 2 have eq: "take_overlap rest (para # acc) (n + length para) = (ov, ol)"
      by (simp add: Let_def)
    from False 2(3) have "rest \<noteq> []" by (auto simp: sumlen_def)
    moreover from 2(3) have "overlap \<le> n + length para + sumlen rest" by (simp add: sumlen_def)
    ultimately show ?thesis using 2(1)[OF refl refl False eq] by simp
  qed
qed

lemma take_overlap_bound:
  "take_overlap rs acc n = (ov, ol) \<Longrightarrow> n < overlap \<Longrightarrow> \<forall>p\<in>set rs. length p \<le> m \<Longrightarrow>
     ol < overlap + m"
proof (induction rs acc n rule: take_overlap.induct)
  case (1 acc n)
  then show ?case by simp
next
  case (2 para rest acc n)
  show ?case
  proof (cases "n + length para \<ge> overlap")
    case True
    with 2 have "ol = n + length para" by (simp add: Let_def)
    with 2 show ?thesis by simp
  next
    case False
    with 2 have eq: "take_overlap rest (para # acc) (n + length para) = (ov, ol)"
      by (simp add: Let_def)
    from False 2 show ?thesis using 2(1)[OF refl refl False eq] by simp
  qed
qed

lemma take_overlap_from_chunk:
  assumes "take_overlap (rev cur) [] 0 = (ov, ol)" and "overlap \<le> sumlen cur"
  shows "ol = sumlen ov" and "suffix ov cur" and "overlap \<le> ol" and "ov \<noteq> []"
proof -
  from take_overlap_shape[OF assms(1)] obtain k where
    ol: "ol = sumlen ov" and ov: "ov = rev (take k (rev cur))" by (auto simp: sumlen_def)
  show "ol = sumlen ov" by (rule ol)
  have "cur = rev (drop k (rev cur)) @ ov"
    unfolding ov by (metis append_take_drop_id rev_append rev_rev_ident)
  then show "suffix ov cur" by (rule suffixI)
  from assms(2) have "cur \<noteq> []" by (auto simp: sumlen_def overlap_def)
  with take_overlap_enough[OF assms(1)] assms(2) show "overlap \<le> ol"
    by (simp add: sumlen_def rev_map[symmetric])
  with ol show "ov \<noteq> []" by (auto simp: sumlen_def overlap_def)
qed

lemma groups_nonempty: "cur \<noteq> [] \<Longrightarrow> len > 0 \<Longrightarrow> groups ps cur len \<noteq> []"
  by (induction ps cur len rule: groups.induct) (auto simp: Let_def)

lemma groups_hd_prefix: "groups ps cur len \<noteq> [] \<Longrightarrow> prefix cur (hd (groups ps cur len))"
proof (induction ps cur len rule: groups.induct)
  case (1 cur len)
  then show ?case by (auto split: if_splits)
next
  case (2 p ps cur len)
  show ?case
  proof (cases "len + length p \<ge> chunk_size")
    case True
    then show ?thesis by (simp add: Let_def)
  next
    case False
    with 2 have "prefix (cur @ [p]) (hd (groups ps (cur @ [p]) (len + length p)))"
      by (simp add: Let_def)
    with False show ?thesis by (simp add: Let_def) (meson append_prefixD)
  qed
qed

lemma chunk_size_overlap: "overlap \<le> chunk_size"
  by (simp add: overlap_def chunk_size_def)

lemma groups_successively:
  "len = sumlen cur \<Longrightarrow> successively shares (groups ps cur len)"
proof (induction ps cur len rule: groups.induct)
  case (1 cur len)
  then show ?case by simp
next
  case (2 p ps cur len)
  let ?cur = "cur @ [p]" and ?len = "len + length p"
  have len': "?len = sumlen ?cur" using 2(3) by (simp add: sumlen_def)
  show ?case
  proof (cases "?len \<ge> chunk_size")
    case True
    obtain ov ol where r: "take_overlap (rev ?cur) [] 0 = (ov, ol)" by (cases "take_overlap (rev ?cur) [] 0")
    from True len' chunk_size_overlap have "overlap \<le> sumlen ?cur" by simp
    note f = take_overlap_from_chunk[OF r this]
    from f have ne: "groups ps ov ol \<noteq> []"
      by (intro groups_nonempty) (auto simp: overlap_def)
    have "successively shares (groups ps ov ol)"
      using 2(1)[OF refl refl True refl] r f(1) by simp
    moreover have "shares ?cur (hd (groups ps ov ol))"
      unfolding shares_def using f groups_hd_prefix[OF ne] by blast
    ultimately show ?thesis using True r ne by (simp add: Let_def successively_Cons)
  next
    case False
    with 2(2)[OF refl refl False] len' show ?thesis by (simp add: Let_def)
  qed
qed

lemma groups_butlast_full:
  "len = sumlen cur \<Longrightarrow> g \<in> set (butlast (groups ps cur len)) \<Longrightarrow> chunk_size \<le> sumlen g"
proof (induction ps cur len rule: groups.induct)
  case (1 cur len)
  then show ?case by (simp split: if_splits)
next
  case (2 p ps cur len)
  let ?cur = "cur @ [p]" and ?len = "len + length p"
  have len': "?len = sumlen ?cur" using 2(3) by (simp add: sumlen_def)
  show ?case
  proof (cases "?len \<ge> chunk_size")
    case True
    obtain ov ol where r: "take_overlap (rev ?cur) [] 0 = (ov, ol)" by (cases "take_overlap (rev ?cur) [] 0")
    from True len' chunk_size_overlap have "overlap \<le> sumlen ?cur" by simp
    note f = take_overlap_from_chunk[OF r this]
    from 2(4) True r have "g = ?cur \<or> g \<in> set (butlast (groups ps ov ol))"
      by (auto simp: Let_def split: if_splits)
    then show ?thesis
    proof
      assume "g = ?cur" with True len' show ?thesis by simp
    next
      assume "g \<in> set (butlast (groups ps ov ol))"
      with 2(1)[OF refl refl True refl] r f(1) show ?thesis by simp
    qed
  next
    case False
    with 2(2)[OF refl refl False] 2(4) len' show ?thesis by (simp add: Let_def)
  qed
qed

lemma groups_bounded:
  "len = sumlen cur \<Longrightarrow> len < chunk_size \<Longrightarrow> \<forall>p\<in>set ps \<union> set cur. length p \<le> m \<Longrightarrow>
   overlap + m \<le> chunk_size \<Longrightarrow> g \<in> set (groups ps cur len) \<Longrightarrow> sumlen g < chunk_size + m"
proof (induction ps cur len rule: groups.induct)
  case (1 cur len)
  then show ?case by (auto split: if_splits)
next
  case (2 p ps cur len)
  let ?cur = "cur @ [p]" and ?len = "len + length p"
  have len': "?len = sumlen ?cur" using 2(3) by (simp add: sumlen_def)
  have pm: "length p \<le> m" using 2(5) by simp
  show ?case
  proof (cases "?len \<ge> chunk_size")
    case True
    obtain ov ol where r: "take_overlap (rev ?cur) [] 0 = (ov, ol)" by (cases "take_overlap (rev ?cur) [] 0")
    from True len' chunk_size_overlap have "overlap \<le> sumlen ?cur" by simp
    note f = take_overlap_from_chunk[OF r this]
    have "ol < overlap + m"
      using 2(5) by (intro take_overlap_bound[OF r]) (auto simp: overlap_def)
    with 2(6) have small: "ol < chunk_size" by simp
    from f(2) have "set ov \<subseteq> set ?cur" by (rule set_mono_suffix)
    with 2(5) have bnd: "\<forall>p\<in>set ps \<union> set ov. length p \<le> m" by auto
    from 2(7) True r have "g = ?cur \<or> g \<in> set (groups ps ov ol)"
      by (auto simp: Let_def)
    then show ?thesis
    proof
      assume "g = ?cur" with len' 2(4) pm show ?thesis by simp
    next
      assume "g \<in> set (groups ps ov ol)"
      with 2(1)[OF refl refl True refl] r f(1) small bnd 2(6) show ?thesis by simp
    qed
  next
    case False
    with 2(2)[OF refl refl False] 2(4-7) len' show ?thesis by (simp add: Let_def)
  qed
qed

lemma take_overlap_subset:
  assumes "take_overlap (rev cur) [] 0 = (ov, ol)"
  shows "set ov \<subseteq> set cur"
proof -
  from take_overlap_shape[OF assms] obtain k where "ov = rev (take k (rev cur))"
    by (auto simp: sumlen_def)
  then show ?thesis by (auto dest: in_set_takeD)
qed

lemma groups_members:
  "g \<in> set (groups ps cur len) \<Longrightarrow> set g \<subseteq> set ps \<union> set cur"
proof (induction ps cur len rule: groups.induct)
  case (1 cur len)
  then show ?case by (auto split: if_splits)
next
  case (2 p ps cur len)
  let ?cur = "cur @ [p]" and ?len = "len + length p"
  show ?case
  proof (cases "?len \<ge> chunk_size")
    case True
    obtain ov ol where r: "take_overlap (rev ?cur) [] 0 = (ov, ol)" by (cases "take_overlap (rev ?cur) [] 0")
    from 2(3) True r have "g = ?cur \<or> g \<in> set (groups ps ov ol)"
      by (auto simp: Let_def)
    then show ?thesis
    proof
      assume "g = ?cur" then show ?thesis by auto
    next
      assume "g \<in> set (groups ps ov ol)"
      with 2(1)[OF refl refl True refl] r have "set g \<subseteq> set ps \<union> set ov" by simp
      with take_overlap_subset[OF r] show ?thesis by auto
    qed
  next
    case False
    with 2(2)[OF refl refl False] 2(3) show ?thesis by (auto simp: Let_def)
  qed
qed

lemma join_nl_append:
  "xs \<noteq> [] \<Longrightarrow> ys \<noteq> [] \<Longrightarrow> join_nl (xs @ ys) = join_nl xs @ nl # join_nl ys"
  by (induction xs rule: join_nl.induct) (auto simp: neq_Nil_conv)

lemma length_join_nl: "sumlen ps \<le> length (join_nl ps)"
  by (induction ps rule: join_nl.induct) (auto simp: sumlen_def)

lemma join_nl_suffix: "suffix ov g \<Longrightarrow> ov \<noteq> [] \<Longrightarrow> suffix (join_nl ov) (join_nl g)"
  by (cases "g = ov") (auto simp: suffix_def join_nl_append)

lemma join_nl_prefix: "prefix ov g \<Longrightarrow> ov \<noteq> [] \<Longrightarrow> prefix (join_nl ov) (join_nl g)"
  by (cases "g = ov") (auto simp: prefix_def join_nl_append)

lemma split_nl_nonempty: "split_nl s \<noteq> []"
  by (induction s) (auto split: list.splits)

lemma split_nl_no_nl: "p \<in> set (split_nl s) \<Longrightarrow> nl \<notin> set p"
  by (induction s arbitrary: p) (auto split: list.splits if_splits)

lemma filter_no_nl: "nl \<notin> set p \<Longrightarrow> filter (\<lambda>c. c \<noteq> nl) p = p"
  by (induction p) auto

lemma para_count_join_nl:
  "\<forall>p\<in>set ps. nl \<notin> set p \<Longrightarrow> length (filter (\<lambda>c. c \<noteq> nl) (join_nl ps)) = sumlen ps"
  by (induction ps rule: join_nl.induct) (auto simp: sumlen_def filter_no_nl)

lemma split_nl_cons: "nl \<notin> set p \<Longrightarrow> split_nl (p @ nl # rest) = p # split_nl rest"
  by (induction p) auto

lemma split_nl_single: "nl \<notin> set p \<Longrightarrow> split_nl p = [p]"
  by (induction p) auto

lemma split_nl_join_nl:
  "ps \<noteq> [] \<Longrightarrow> \<forall>p\<in>set ps. nl \<notin> set p \<Longrightarrow> split_nl (join_nl ps) = ps"
  by (induction ps rule: join_nl.induct) (auto simp: split_nl_cons split_nl_single)

lemma paragraphs_join_nl:
  "ps \<noteq> [] \<Longrightarrow> \<forall>p\<in>set ps. nl \<notin> set p \<and> \<not> list_all is_space p \<Longrightarrow> paragraphs (join_nl ps) = ps"
  by (simp add: paragraphs_def split_nl_join_nl filter_id_conv)

lemma paragraphs_no_nl: "p \<in> set (paragraphs s) \<Longrightarrow> nl \<notin> set p"
  by (auto simp: paragraphs_def dest: split_nl_no_nl)

text \<open>A document with an empty body is skipped.\<close>

lemma chunk_document_empty_body: "doc_body d = [] \<Longrightarrow> chunk_document d = []"
  by (simp add: chunk_document_def)

lemma chunk_document_long:
  "chunk_size \<le> length (doc_body d) \<Longrightarrow>
   chunk_document d = map (\<lambda>g. mk_chunk d (metadata_header d @ join_nl g)) (groups (paragraphs (doc_body d)) [] 0)"
  by (auto simp: chunk_document_def chunk_loop_groups chunk_size_def Let_def)

lemma shares_text:
  assumes "shares a b"
  shows "\<exists>w. 200 \<le> length w \<and> suffix w (h @ join_nl a) \<and> prefix (h @ w) (h @ join_nl b)"
proof -
  from assms obtain ov where ov: "ov \<noteq> []" "overlap \<le> sumlen ov" "suffix ov a" "prefix ov b"
    by (auto simp: shares_def)
  have "200 \<le> length (join_nl ov)"
    using ov(2) length_join_nl[of ov] by (simp add: overlap_def)
  moreover have "suffix (join_nl ov) (h @ join_nl a)"
    using join_nl_suffix[OF ov(3) ov(1)] by (rule suffix_appendI)
  moreover have "prefix (h @ join_nl ov) (h @ join_nl b)"
    using join_nl_prefix[OF ov(4) ov(1)] by simp
  ultimately show ?thesis by blast
qed

text \<open>
  Claim C3, as amended.  A document whose body is non-empty and shorter than 2000
  characters gives exactly one chunk, the metadata header followed by the whole body.
  A document whose body has at least 2000 characters gives chunks that all start with
  the exact metadata header of the document, and any two consecutive chunks share at
  least 200 characters: a string \<open>w\<close> of that length ends the earlier chunk and follows
  the header of the later one.  (An empty body gives no chunk at all, see
  \<open>single_chunk_counterexample\<close>.)
\<close>

theorem chunk_document_short_and_overlap:
  "(doc_body d \<noteq> [] \<and> length (doc_body d) < 2000 \<longrightarrow>
      map c_text (chunk_document d) = [metadata_header d @ doc_body d]) \<and>
   (2000 \<le> length (doc_body d) \<longrightarrow>
      (\<forall>c\<in>set (chunk_document d). prefix (metadata_header d) (c_text c)) \<and>
      (\<forall>i. Suc i < length (chunk_document d) \<longrightarrow>
         (\<exists>w. 200 \<le> length w \<and> suffix w (c_text (chunk_document d ! i)) \<and>
              prefix (metadata_header d @ w) (c_text (chunk_document d ! Suc i)))))"
proof (intro conjI impI)
  assume "doc_body d \<noteq> [] \<and> length (doc_body d) < 2000"
  then show "map c_text (chunk_document d) = [metadata_header d @ doc_body d]"
    by (simp add: chunk_document_def mk_chunk_def Let_def)
next
  assume long: "2000 \<le> length (doc_body d)"
  then have cd: "chunk_document d =
      map (\<lambda>g. mk_chunk d (metadata_header d @ join_nl g)) (groups (paragraphs (doc_body d)) [] 0)"
    by (intro chunk_document_long) (simp add: chunk_size_def)
  show "\<forall>c\<in>set (chunk_document d). prefix (metadata_header d) (c_text c)"
    unfolding cd by (auto simp: mk_chunk_def)
  have "successively shares (groups (paragraphs (doc_body d)) [] 0)"
    by (rule groups_successively) (simp add: sumlen_def)
  then have nth: "Suc i < length (groups (paragraphs (doc_body d)) [] 0) \<Longrightarrow>
      shares (groups (paragraphs (doc_body d)) [] 0 ! i) (groups (paragraphs (doc_body d)) [] 0 ! Suc i)" for i
    by (simp add: successively_conv_nth)
  show "\<forall>i. Suc i < length (chunk_document d) \<longrightarrow>
         (\<exists>w. 200 \<le> length w \<and> suffix w (c_text (chunk_document d ! i)) \<and>
              prefix (metadata_header d @ w) (c_text (chunk_document d ! Suc i)))"
  proof (intro allI impI)
    fix i assume i: "Suc i < length (chunk_document d)"
    then have "Suc i < length (groups (paragraphs (doc_body d)) [] 0)" by (simp add: cd)
    from shares_text[OF nth[OF this], of "metadata_header d"] i
    show "\<exists>w. 200 \<le> length w \<and> suffix w (c_text (chunk_document d ! i)) \<and>
              prefix (metadata_header d @ w) (c_text (chunk_document d ! Suc i))"
      by (simp add: cd mk_chunk_def)
  qed
qed

text \<open>
  Claim C4, as amended.  2000 is the threshold at which the loop closes a chunk, not a
  cap on its length.  The single chunk of a short non-empty document is shorter than
  header + 2000.  For a document of at least 2000 characters, every chunk except the
  last is at least 2000 characters long after its header; and when no paragraph is
  longer than \<open>m \<le> 1800\<close> characters, every chunk holds fewer than \<open>2000 + m\<close>
  paragraph characters.
\<close>

theorem chunk_size_is_threshold:
  "(doc_body d \<noteq> [] \<and> length (doc_body d) < 2000 \<longrightarrow>
      (\<forall>c\<in>set (chunk_document d). length (c_text c) < length (metadata_header d) + 2000)) \<and>
   (2000 \<le> length (doc_body d) \<longrightarrow>
      (\<forall>c\<in>set (butlast (chunk_document d)). length (metadata_header d) + 2000 \<le> length (c_text c)) \<and>
      ((\<forall>p\<in>set (paragraphs (doc_body d)). length p \<le> m) \<and> m \<le> 1800 \<longrightarrow>
         (\<forall>c\<in>set (chunk_document d). para_chars d c < 2000 + m)))"
proof (intro conjI impI)
  assume "doc_body d \<noteq> [] \<and> length (doc_body d) < 2000"
  then show "\<forall>c\<in>set (chunk_document d). length (c_text c) < length (metadata_header d) + 2000"
    by (simp add: chunk_document_def mk_chunk_def Let_def)
next
  assume long: "2000 \<le> length (doc_body d)"
  then have cd: "chunk_document d =
      map (\<lambda>g. mk_chunk d (metadata_header d @ join_nl g)) (groups (paragraphs (doc_body d)) [] 0)"
    by (intro chunk_document_long) (simp add: chunk_size_def)
  show "\<forall>c\<in>set (butlast (chunk_document d)). length (metadata_header d) + 2000 \<le> length (c_text c)"
  proof
    fix c assume "c \<in> set (butlast (chunk_document d))"
    then obtain g where g: "g \<in> set (butlast (groups (paragraphs (doc_body d)) [] 0))"
      and c: "c = mk_chunk d (metadata_header d @ join_nl g)"
      by (auto simp: cd map_butlast[symmetric])
    from groups_butlast_full[OF _ g] have "chunk_size \<le> sumlen g" by (simp add: sumlen_def)
    with length_join_nl[of g] show "length (metadata_header d) + 2000 \<le> length (c_text c)"
      by (simp add: c mk_chunk_def chunk_size_def)
  qed
next
  assume long: "2000 \<le> length (doc_body d)"
    and b: "(\<forall>p\<in>set (paragraphs (doc_body d)). length p \<le> m) \<and> m \<le> 1800"
  from long have cd: "chunk_document d =
      map (\<lambda>g. mk_chunk d (metadata_header d @ join_nl g)) (groups (paragraphs (doc_body d)) [] 0)"
    by (intro chunk_document_long) (simp add: chunk_size_def)
  show "\<forall>c\<in>set (chunk_document d). para_chars d c < 2000 + m"
  proof
    fix c assume "c \<in> set (chunk_document d)"
    then obtain g where g: "g \<in> set (groups (paragraphs (doc_body d)) [] 0)"
      and c: "c = mk_chunk d (metadata_header d @ join_nl g)"
      by (auto simp: cd)
    have "sumlen g < chunk_size + m"
      using b by (intro groups_bounded[OF _ _ _ _ g]) (auto simp: sumlen_def chunk_size_def overlap_def)
    moreover have "\<forall>p\<in>set g. nl \<notin> set p"
      using groups_members[OF g] by (auto dest: paragraphs_no_nl)
    ultimately show "para_chars d c < 2000 + m"
      by (simp add: para_chars_def c mk_chunk_def para_count_join_nl chunk_size_def)
  qed
qed

lemma para500_facts: "length para500 = 500" "nl \<notin> set para500" "\<not> list_all is_space para500"
  by (simp_all add: para500_def nl_def is_space_def list_all_iff)

lemma doc_five_body_length: "length (doc_body doc_five) = 2504"
  by (simp add: doc_five_def doc_body_def para500_facts)

lemma doc_five_body: "doc_body doc_five = join_nl [para500, para500, para500, para500, para500]"
  by (simp add: doc_five_def doc_body_def del: join_nl.simps)

lemma doc_five_paragraphs:
  "paragraphs (doc_body doc_five) = [para500, para500, para500, para500, para500]"
  unfolding doc_five_body by (rule paragraphs_join_nl) (simp_all add: para500_facts)

lemma doc_five_chunks:
  "map c_text (chunk_document doc_five) =
     [metadata_header doc_five @ join_nl [para500, para500, para500, para500],
      metadata_header doc_five @ join_nl [para500, para500]]"
proof -
  have "doc_body doc_five \<noteq> []" using doc_five_body_length by auto
  then show ?thesis
    using doc_five_body_length
    by (simp add: chunk_document_def doc_five_paragraphs Let_def chunk_size_def overlap_def
        para500_facts mk_chunk_def del: join_nl.simps)
qed

text \<open>Claim C4 as stated fails: the first of the two chunks of \<^term>\<open>doc_five\<close> holds four
  paragraphs of 500 characters and three separators, 2003 characters after the header.\<close>

theorem chunk_length_cap_counterexample:
  "\<not> (\<forall>d. \<forall>c\<in>set (butlast (chunk_document d)). length (c_text c) \<le> length (metadata_header d) + 2000)"
proof
  assume a: "\<forall>d. \<forall>c\<in>set (butlast (chunk_document d)). length (c_text c) \<le> length (metadata_header d) + 2000"
  let ?t = "metadata_header doc_five @ join_nl [para500, para500, para500, para500]"
  have "map c_text (butlast (chunk_document doc_five)) = [?t]"
    by (simp add: map_butlast doc_five_chunks del: join_nl.simps)
  then obtain c where c: "c \<in> set (butlast (chunk_document doc_five))" "c_text c = ?t"
    by (cases "butlast (chunk_document doc_five)") auto
  with a have "length ?t \<le> length (metadata_header doc_five) + 2000"
    by metis
  then show False by (simp add: para500_facts)
qed

text \<open>Claim C3 as stated fails for the empty body: \<open>if not content: continue\<close> skips the
  document, so it has no chunk.\<close>

theorem single_chunk_counterexample:
  "\<not> (\<forall>d. length (doc_body d) < 2000 \<longrightarrow> map c_text (chunk_document d) = [metadata_header d @ doc_body d])"
proof
  assume "\<forall>d. length (doc_body d) < 2000 \<longrightarrow> map c_text (chunk_document d) = [metadata_header d @ doc_body d]"
  then have "length (doc_body doc_empty) < 2000 \<longrightarrow> map c_text (chunk_document doc_empty) = [metadata_header doc_empty @ doc_body doc_empty]"
    by blast
  then show False by (simp add: doc_empty_def doc_body_def chunk_document_def)
qed

theorem chunk_document_short_and_overlap_witness:
  "doc_body doc_short \<noteq> [] \<and> length (doc_body doc_short) < 2000 \<and>
   map c_text (chunk_document doc_short) = [metadata_header doc_short @ ''short body''] \<and>
   2000 \<le> length (doc_body doc_five) \<and> length (chunk_document doc_five) = 2 \<and>
   prefix (metadata_header doc_five) (c_text (chunk_document doc_five ! 1)) \<and>
   (\<exists>w. 200 \<le> length w \<and> suffix w (c_text (chunk_document doc_five ! 0)) \<and>
        prefix (metadata_header doc_five @ w) (c_text (chunk_document doc_five ! 1)))"
proof -
  have s: "doc_body doc_short \<noteq> [] \<and> length (doc_body doc_short) < 2000"
    and b: "doc_body doc_short = ''short body''"
    by (simp_all add: doc_short_def doc_body_def)
  have l: "2000 \<le> length (doc_body doc_five)" by (simp add: doc_five_body_length)
  have n: "length (chunk_document doc_five) = 2"
    using arg_cong[OF doc_five_chunks, of length] by simp
  from chunk_document_short_and_overlap[of doc_short] s b
  have 1: "map c_text (chunk_document doc_short) = [metadata_header doc_short @ ''short body'']"
    by simp
  from chunk_document_short_and_overlap[of doc_five] l
  have 2: "\<forall>c\<in>set (chunk_document doc_five). prefix (metadata_header doc_five) (c_text c)"
    and 3: "\<forall>i. Suc i < length (chunk_document doc_five) \<longrightarrow>
         (\<exists>w. 200 \<le> length w \<and> suffix w (c_text (chunk_document doc_five ! i)) \<and>
              prefix (metadata_header doc_five @ w) (c_text (chunk_document doc_five ! Suc i)))"
    by blast+
  from 2 n have 4: "prefix (metadata_header doc_five) (c_text (chunk_document doc_five ! 1))"
    by simp
  from 3 n have 5: "\<exists>w. 200 \<le> length w \<and> suffix w (c_text (chunk_document doc_five ! 0)) \<and>
        prefix (metadata_header doc_five @ w) (c_text (chunk_document doc_five ! 1))"
    by (metis One_nat_def Suc_1 lessI)
  from s 1 l n 4 5 show ?thesis by blast
qed

theorem chunk_size_is_threshold_witness:
  "doc_body doc_short \<noteq> [] \<and> length (doc_body doc_short) < 2000 \<and>
   length (c_text (hd (chunk_document doc_short))) < length (metadata_header doc_short) + 2000 \<and>
   2000 \<le> length (doc_body doc_five) \<and> list_all (\<lambda>p. length p \<le> 500) (paragraphs (doc_body doc_five)) \<and>
   length (metadata_header doc_five) + 2000 \<le> length (c_text (hd (chunk_document doc_five))) \<and>
   para_chars doc_five (hd (chunk_document doc_five)) < 2500"
proof -
  have s: "doc_body doc_short \<noteq> [] \<and> length (doc_body doc_short) < 2000"
    by (simp_all add: doc_short_def doc_body_def)
  have l: "2000 \<le> length (doc_body doc_five)" by (simp add: doc_five_body_length)
  have n: "length (chunk_document doc_five) = 2"
    using arg_cong[OF doc_five_chunks, of length] by simp
  have p: "\<forall>p\<in>set (paragraphs (doc_body doc_five)). length p \<le> 500"
    by (simp add: doc_five_paragraphs para500_facts)
  have ns: "chunk_document doc_short \<noteq> []"
    by (simp add: chunk_document_def doc_short_def doc_body_def Let_def)
  have h5: "hd (chunk_document doc_five) \<in> set (butlast (chunk_document doc_five))"
    using n by (cases "chunk_document doc_five" rule: list.exhaust; cases "tl (chunk_document doc_five)") auto
  have h5': "hd (chunk_document doc_five) \<in> set (chunk_document doc_five)"
    using h5 by (rule in_set_butlastD)
  note t = chunk_size_is_threshold[of doc_short 500] chunk_size_is_threshold[of doc_five 500]
  from t(1) s ns have 1: "length (c_text (hd (chunk_document doc_short))) < length (metadata_header doc_short) + 2000"
    by simp
  from t(2) l h5 have 2: "length (metadata_header doc_five) + 2000 \<le> length (c_text (hd (chunk_document doc_five)))"
    by blast
  from t(2) l p h5' have 3: "para_chars doc_five (hd (chunk_document doc_five)) < 2500"
    by fastforce
  from s 1 l p 2 3 show ?thesis by (simp add: list_all_iff)
qed

section \<open>Negative-News Analyzer: proofs\<close>

subsection \<open>Binary floating point\<close>

lemma pow2_powi: "pow2 e = 2 powi e"
  by (simp add: pow2_def power_int_def inverse_eq_divide power_one_over)

lemma pow2_pos: "0 < pow2 e"
  by (simp add: pow2_def)

lemma pow2_mono: "a \<le> b \<Longrightarrow> pow2 a \<le> pow2 b"
  by (simp add: pow2_powi power_int_increasing)

lemma pow2_less_cancel: "pow2 a < pow2 b \<Longrightarrow> a < b"
  using pow2_mono[of b a] by (cases "a < b") auto

lemma pow2_Suc: "pow2 (e + 1) = 2 * pow2 e"
  by (simp add: pow2_powi power_int_add)

lemma threshold_above: "pow2 1023 \<le> pow2 1024 - pow2 970"
proof -
  have "pow2 970 \<le> pow2 1023" by (rule pow2_mono) simp
  moreover have "pow2 1024 = 2 * pow2 1023" using pow2_Suc[of 1023] by simp
  ultimately show ?thesis by simp
qed

lemma fits_small: "\<bar>x\<bar> \<le> 1024 \<Longrightarrow> \<not> too_large x"
proof -
  assume a: "\<bar>x\<bar> \<le> 1024"
  have "pow2 10 = 1024" by (simp add: pow2_def)
  moreover have "pow2 10 < pow2 1023"
    using pow2_Suc[of 10] pow2_mono[of 11 1023] pow2_pos[of 10] by simp
  ultimately show ?thesis using a threshold_above by (simp add: too_large_def)
qed

lemma too_large_big: "pow2 1024 \<le> \<bar>x\<bar> \<Longrightarrow> too_large x"
  using pow2_pos[of 970] by (simp add: too_large_def)

lemma binade_le: assumes "x \<noteq> 0" shows "pow2 (binade x) \<le> \<bar>x\<bar>"
proof -
  obtain a b where q: "quotient_of \<bar>x\<bar> = (a, b)" by (cases "quotient_of \<bar>x\<bar>")
  then have b: "0 < b" and x: "\<bar>x\<bar> = of_int a / of_int b"
    by (simp_all add: quotient_of_denom_pos quotient_of_div)
  from assms have "0 < \<bar>x\<bar>" by simp
  with x b have a: "0 < a" by (simp add: zero_less_divide_iff)
  define d where "d = bitlen a - bitlen b"
  have la: "(2::rat) ^ nat (bitlen a - 1) \<le> of_int a"
    using bitlen_bounds[OF a] by (metis of_int_le_iff of_int_numeral of_int_power)
  have lb: "of_int b \<le> (2::rat) ^ nat (bitlen b)"
    using bitlen_bounds[OF b] by (metis less_imp_le of_int_le_iff of_int_numeral of_int_power)
  have ba: "1 \<le> bitlen a" using a by (simp add: bitlen_alt_def)
  have bb: "0 \<le> bitlen b" by (rule bitlen_nonneg)
  have "d - 1 = (bitlen a - 1) - bitlen b" by (simp add: d_def)
  then have "pow2 (d - 1) = 2 powi (bitlen a - 1) / 2 powi (bitlen b)"
    by (simp only: pow2_powi power_int_diff) (simp add: power_int_diff)
  also have "\<dots> = 2 ^ nat (bitlen a - 1) / 2 ^ nat (bitlen b)"
    using ba bb by (simp add: power_int_def)
  also have "\<dots> \<le> of_int a / of_int b"
    using la lb a b by (intro frac_le) simp_all
  finally have low: "pow2 (d - 1) \<le> \<bar>x\<bar>" by (simp add: x)
  show ?thesis
    using low by (simp add: binade_def q d_def Let_def)
qed


lemma round_half_even_nonneg: "0 \<le> y \<Longrightarrow> 0 \<le> round_half_even y"
proof -
  assume "0 \<le> y"
  then have "0 \<le> \<lfloor>y\<rfloor>" by simp
  then show ?thesis unfolding round_half_even_def Let_def by auto
qed

lemma round_half_even_le: "y \<le> of_int m \<Longrightarrow> round_half_even y \<le> m"
proof -
  assume y: "y \<le> of_int m"
  then have n: "\<lfloor>y\<rfloor> \<le> m" by (simp add: floor_le_iff)
  have "y - of_int \<lfloor>y\<rfloor> < 1 / 2" if "\<lfloor>y\<rfloor> = m"
    using y that by simp
  with n show ?thesis
    unfolding round_half_even_def Let_def by (cases "\<lfloor>y\<rfloor> = m") auto
qed

lemma round_half_even_of_int: "round_half_even (of_int k) = k"
  by (simp add: round_half_even_def)

lemma nearest_double_nonneg: "0 \<le> x \<Longrightarrow> 0 \<le> nearest_double x"
  by (auto simp: nearest_double_def Let_def intro!: mult_nonneg_nonneg round_half_even_nonneg
      divide_nonneg_pos pow2_pos less_imp_le[OF pow2_pos])

text \<open>An integer below \<open>2 ** 53\<close> is a float, so rounding does not cross it.\<close>

lemma nearest_double_le_int:
  assumes y: "0 < y" "y \<le> of_int m" and m: "m < 2 ^ 53"
  shows "nearest_double y \<le> of_int m"
proof -
  define e where "e = max (binade y) (- 1022)"
  define u where "u = pow2 (e - 52)"
  have "pow2 (binade y) \<le> \<bar>y\<bar>" using y by (intro binade_le) simp
  also have "\<dots> \<le> of_int m" using y by simp
  also have "\<dots> < pow2 53"
    using m by (simp add: pow2_def)
  finally have "binade y < 53" by (rule pow2_less_cancel)
  then have e: "e \<le> 52" by (simp add: e_def)
  then have u: "u = 1 / 2 ^ nat (52 - e)"
    by (cases "e = 52") (simp_all add: u_def pow2_def)
  have upos: "0 < u" by (simp add: u_def pow2_pos)
  have "y / u \<le> of_int m / u" using y upos by (simp add: divide_right_mono)
  also have "of_int m / u = of_int (m * 2 ^ nat (52 - e))" by (simp add: u)
  finally have "round_half_even (y / u) \<le> m * 2 ^ nat (52 - e)"
    by (rule round_half_even_le)
  then have "(of_int (round_half_even (y / u)) :: rat) \<le> of_int (m * 2 ^ nat (52 - e))"
    by (simp only: of_int_le_iff)
  then have "of_int (round_half_even (y / u)) * u \<le> of_int (m * 2 ^ nat (52 - e)) * u"
    using upos by (simp add: mult_right_mono)
  also have "\<dots> = of_int m" by (simp add: u)
  finally show ?thesis
    using y by (simp add: nearest_double_def Let_def e_def u_def)
qed

lemma py_round1_range:
  assumes "0 \<le> x" "x \<le> 10"
  shows "0 \<le> py_round1 x \<and> py_round1 x \<le> 10"
proof -
  define k where "k = round_half_even (x * 10)"
  have k0: "0 \<le> k" unfolding k_def using assms by (intro round_half_even_nonneg) simp
  have "x * 10 \<le> of_int 100" using assms by simp
  then have k100: "k \<le> 100" unfolding k_def by (rule round_half_even_le)
  have lo: "0 \<le> nearest_double (of_int k / 10)"
    using k0 by (intro nearest_double_nonneg) simp
  have hi: "nearest_double (of_int k / 10) \<le> 10"
  proof (cases "k = 0")
    case True
    then show ?thesis by (simp add: nearest_double_def)
  next
    case False
    with k0 have "0 < (of_int k / 10 :: rat)" by simp
    moreover have "(of_int k / 10 :: rat) \<le> of_int 10" using k100 by simp
    ultimately have "nearest_double (of_int k / 10) \<le> of_int 10"
      by (rule nearest_double_le_int) simp
    then show ?thesis by simp
  qed
  from lo hi show ?thesis by (simp add: py_round1_def k_def)
qed

lemma float_add_nonneg:
  "nonneg_float a \<Longrightarrow> 0 \<le> b \<Longrightarrow> nonneg_float (float_add a (Finite b))"
proof (cases a)
  case (Finite x)
  assume "nonneg_float a" "0 \<le> b"
  with Finite have s: "0 \<le> x + b" by simp
  have "0 < x + b" if "too_large (x + b)"
    using that s pow2_pos[of 1023] threshold_above by (cases "x + b = 0") (auto simp: too_large_def)
  with s show ?thesis by (simp add: Finite nearest_double_nonneg)
qed simp_all

lemma div_by_10_nonneg: "0 \<le> p \<Longrightarrow> div_by_10 p = Inr t \<Longrightarrow> \<exists>b. t = Finite b \<and> 0 \<le> b"
  by (auto simp: div_by_10_def nearest_double_nonneg split: if_splits)

lemma total_risk_nonneg:
  "\<forall>f\<in>set (scored fs). 0 \<le> severity_of f * confidence_of f \<Longrightarrow> nonneg_float acc \<Longrightarrow>
   total_risk fs acc = Inr t \<Longrightarrow> nonneg_float t"
proof (induction fs acc rule: total_risk.induct)
  case (3 f fs acc)
  from "3.prems" obtain b where b: "div_by_10 (severity_of f * confidence_of f) = Inr b"
    by (auto split: sum.splits)
  with "3.prems" obtain c where c: "b = Finite c" "0 \<le> c"
    using div_by_10_nonneg[of "severity_of f * confidence_of f" b] by auto
  with "3.prems" have "nonneg_float (float_add acc b)" by (simp add: float_add_nonneg)
  with "3.IH"[OF b] "3.prems" b show ?case by simp
qed simp_all

lemma nearest_double_10: "nearest_double 10 = 10"
  by code_simp

lemma capped_risk_range:
  assumes "nonneg_float t"
  shows "\<exists>r k. capped_risk t = Finite r \<and> 0 \<le> r \<and> r \<le> 10 \<and>
           r = nearest_double (of_int k / 10)"
proof -
  have ten: "(10::rat) = nearest_double (of_int 100 / 10)" by (simp add: nearest_double_10)
  show ?thesis
  proof (cases t)
    case (Finite x)
    show ?thesis
    proof (cases "10 < x")
      case True
      with Finite ten show ?thesis by (auto simp: capped_risk_def simp del: of_int_numeral)
    next
      case False
      with Finite assms have "0 \<le> py_round1 x \<and> py_round1 x \<le> 10"
        by (intro py_round1_range) simp_all
      moreover have "py_round1 x = nearest_double (of_int (round_half_even (x * 10)) / 10)"
        by (simp add: py_round1_def)
      ultimately show ?thesis using Finite False by (auto simp: capped_risk_def)
    qed
  next
    case PosInf
    with ten show ?thesis by (auto simp: capped_risk_def simp del: of_int_numeral)
  qed (use assms in simp_all)
qed


subsection \<open>The score arithmetic at small numbers\<close>

lemma div_by_10_small:
  "\<bar>p\<bar> \<le> 10240 \<Longrightarrow> div_by_10 p = Inr (Finite (nearest_double (of_int p / 10)))"
proof -
  assume "\<bar>p\<bar> \<le> 10240"
  then have "\<bar>of_int p :: rat\<bar> \<le> 10240"
    by (metis of_int_abs of_int_le_iff of_int_numeral)
  then have "\<not> too_large (of_int p / 10)" by (intro fits_small) simp
  then show ?thesis by (simp add: div_by_10_def)
qed

lemma float_add_small:
  "\<bar>a + b\<bar> \<le> 1024 \<Longrightarrow> float_add (Finite a) (Finite b) = Finite (nearest_double (a + b))"
  by (simp add: fits_small)

lemma nearest_double_values:
  "nearest_double (- (5 / 2)) = - (5 / 2)"
  "nearest_double (nearest_double (21 / 5) + nearest_double (28 / 5)) = nearest_double (49 / 5)"
  "py_round1 (nearest_double (49 / 5)) = nearest_double (49 / 5)"
  "nearest_double (nearest_double (21 / 5)) = nearest_double (21 / 5)"
  by code_simp+

lemma tenth_bounds:
  assumes "0 < p" "p \<le> 100"
  shows "0 \<le> nearest_double (of_int p / 10)" "nearest_double (of_int p / 10) \<le> 10"
proof -
  show "0 \<le> nearest_double (of_int p / 10)"
    using assms by (intro nearest_double_nonneg) simp
  have "0 < (of_int p / 10 :: rat)" using assms by simp
  moreover have "(of_int p / 10 :: rat) \<le> of_int 10" using assms by simp
  ultimately have "nearest_double (of_int p / 10) \<le> of_int 10"
    by (rule nearest_double_le_int) simp
  then show "nearest_double (of_int p / 10) \<le> 10" by simp
qed

subsection \<open>The final block\<close>



lemma compile_analysis_raises:
  "fs \<noteq> [] \<Longrightarrow> total_risk fs 0 = Inl msg \<Longrightarrow>
   compile_analysis fs = empty_analysis (''Analysis failed: '' @ msg)"
  by (simp add: compile_analysis_def aggregate_def handled_def)

lemma compile_analysis_returns:
  "fs \<noteq> [] \<Longrightarrow> total_risk fs 0 = Inr t \<Longrightarrow>
   compile_analysis fs =
     \<lparr> has_negative_news = True, risk_score = capped_risk t,
       summary = findings_summary (scored fs), findings = scored fs,
       key_concerns = compile_key_concerns (scored fs),
       sources = unique_sources (scored fs) [] \<rparr>"
  by (simp add: compile_analysis_def aggregate_def handled_def)





subsection \<open>Claim C1\<close>

text \<open>The parts of claim C1 that hold.  With no finding the risk score is 0.\<close>

lemma risk_score_empty: "risk_score (compile_analysis []) = 0"
  by (simp add: compile_analysis_def aggregate_def handled_def)

text \<open>The two findings of the spec's example, scoring \<open>(7, 6)\<close> and \<open>(8, 7)\<close>, give the float
  nearest to 9.8, which is what Python writes as \<open>9.8\<close>.\<close>

lemma risk_score_example:
  "risk_score (compile_analysis
     [mk_finding ''Financial'' ''a'' 7 6, mk_finding ''Conduct'' ''b'' 8 7]) =
   Finite (nearest_double (98 / 10))"
proof -
  let ?fs = "[mk_finding ''Financial'' ''a'' 7 6, mk_finding ''Conduct'' ''b'' 8 7]"
  have a: "0 \<le> nearest_double (21 / 5)" "nearest_double (21 / 5) \<le> 10"
    using tenth_bounds[of 42] by simp_all
  have b: "0 \<le> nearest_double (28 / 5)" "nearest_double (28 / 5) \<le> 10"
    using tenth_bounds[of 56] by simp_all
  have c: "nearest_double (49 / 5) \<le> 10"
    using tenth_bounds[of 98] by simp
  have "total_risk ?fs 0 = Inr (Finite (nearest_double (49 / 5)))"
    using a b
    by (simp add: mk_finding_def severity_of_def confidence_of_def div_by_10_small
        zero_pyfloat_def float_add_small nearest_double_values
        del: float_add.simps)
  then have "risk_score (compile_analysis ?fs) = capped_risk (Finite (nearest_double (49 / 5)))"
    by (simp add: compile_analysis_returns)
  also have "\<dots> = Finite (nearest_double (49 / 5))"
    using c by (simp add: capped_risk_def nearest_double_values)
  finally show ?thesis by simp
qed

text \<open>Whenever no product of severity and confidence is negative, as with scores from 1
  to 10, the risk score is a float from 0 to 10, and it is the float nearest to a
  whole number of tenths.\<close>

lemma risk_score_in_range:
  assumes "\<forall>f\<in>set (scored fs). 0 \<le> severity_of f * confidence_of f"
  shows "\<exists>r k. risk_score (compile_analysis fs) = Finite r \<and> 0 \<le> r \<and> r \<le> 10 \<and>
           r = nearest_double (of_int k / 10)"
proof -
  have zero: "(0::rat) = nearest_double (of_int 0 / 10)" by (simp add: nearest_double_def)
  show ?thesis
  proof (cases "fs = []")
  case True
  with zero show ?thesis
    by (auto simp: risk_score_empty zero_pyfloat_def simp del: of_int_0)
next
  case False
  show ?thesis
  proof (cases "total_risk fs 0")
    case (Inl msg)
    with False zero show ?thesis
      by (auto simp: compile_analysis_raises empty_analysis_def zero_pyfloat_def
          simp del: of_int_0)
  next
    case (Inr t)
    from total_risk_nonneg[OF assms _ Inr] have "nonneg_float t" by (simp add: zero_pyfloat_def)
    from capped_risk_range[OF this] Inr False show ?thesis
      by (simp add: compile_analysis_returns)
  qed
qed
qed


text \<open>A score too large to divide as a float ends in the handler.\<close>

lemma compile_analysis_overflow:
  assumes "pow2 1024 * 10 \<le> of_int s"
  shows "compile_analysis [mk_finding ty d s 1] =
     empty_analysis ''Analysis failed: integer division result too large for a float''"
proof -
  from assms have "pow2 1024 \<le> \<bar>of_int s / 10 :: rat\<bar>" by simp
  then have "too_large (of_int s / 10)" by (rule too_large_big)
  then have "total_risk [mk_finding ty d s 1] 0 =
      Inl ''integer division result too large for a float''"
    by (simp add: mk_finding_def severity_of_def confidence_of_def div_by_10_def)
  then show ?thesis by (simp add: compile_analysis_raises)
qed

lemma ten_power_400: "pow2 1024 * 10 \<le> of_int (10 ^ 400)"
proof -
  have "pow2 1024 = (2::rat) ^ 1024" by (simp add: pow2_def)
  also have "\<dots> \<le> 2 ^ (3 * 399)" by (intro power_increasing) simp_all
  also have "\<dots> = (2 ^ 3) ^ 399" by (simp only: power_mult)
  also have "\<dots> \<le> 10 ^ 399" by (intro power_mono) simp_all
  finally have "pow2 1024 * 10 \<le> 10 ^ 399 * 10" by (simp only: mult_le_cancel_right) simp
  also have "(10::rat) ^ 399 * 10 = 10 ^ Suc 399" by (simp only: power_Suc2)
  also have "Suc 399 = 400" by simp
  also have "(10::rat) ^ 400 = of_int (10 ^ 400)" by (simp only: of_int_power of_int_numeral)
  finally show ?thesis .
qed

lemma risk_score_overflow:
  "compile_analysis [mk_finding ''Fraud'' ''d'' (10 ^ 400) 1] =
     empty_analysis ''Analysis failed: integer division result too large for a float''"
  by (rule compile_analysis_overflow) (rule ten_power_400)

lemma plain_not_forced: "\<not> forced_override plain_entity"
  by (simp add: forced_override_def plain_entity_def analysis_full_name_def py_lower_def
      lower_char_def Let_def)


text \<open>
  Claim C1: the code departs from it.  The scores of a reply are not validated.  One
  collected finding with severity \<open>-5\<close> and confidence 5 gives the risk score \<open>-2.5\<close>,
  outside the range from 0 to 10 that the claim states and that the docstring of the
  graph (\<open>risk_score: Risk score from 0-10\<close>) promises; the same holds for the result of
  \<open>analyze_content\<close> on a reply with that finding.
\<close>

theorem risk_score_negative:
  "risk_score (compile_analysis [mk_finding ''Fraud'' ''d'' (- 5) 5]) = Finite (- 5 / 2) \<and>
   risk_score (analyze_content LiveClient
      (\<lambda>c. LlmAnalysis (Some [mk_finding ''Fraud'' ''d'' (- 5) 5]))
      (Some plain_entity) [chunk_a]) = Finite (- 5 / 2)"
proof -
  let ?fs = "[mk_finding ''Fraud'' ''d'' (- 5) 5]"
  have "total_risk ?fs 0 = Inr (Finite (- (5 / 2)))"
    by (simp add: mk_finding_def severity_of_def confidence_of_def div_by_10_small
        zero_pyfloat_def float_add_small nearest_double_values del: float_add.simps)
  then have "risk_score (compile_analysis ?fs) = capped_risk (Finite (- (5 / 2)))"
    by (simp add: compile_analysis_returns)
  also have "\<dots> = Finite (- (5 / 2))"
    by (simp add: capped_risk_def py_round1_def round_half_even_def nearest_double_values)
  finally have 1: "risk_score (compile_analysis ?fs) = Finite (- 5 / 2)" by simp
  have "collected_findings (forced_override plain_entity)
      (\<lambda>c. LlmAnalysis (Some ?fs)) [chunk_a] = ?fs"
    by (simp add: collected_findings_def plain_not_forced chunk_findings_def
        mk_finding_def chunk_a_def)
  then have "analyze_content LiveClient (\<lambda>c. LlmAnalysis (Some ?fs)) (Some plain_entity)
      [chunk_a] = compile_analysis ?fs"
    by (simp add: analyze_content_def)
  with 1 show ?thesis by simp
qed

subsection \<open>Claim C2\<close>






subsection \<open>Claim C5\<close>

lemma key_concerns_at_most_five: "length (key_concerns (compile_analysis fs)) \<le> 5"
  by (cases "total_risk fs 0")
     (simp_all add: compile_analysis_def aggregate_def handled_def empty_analysis_def
        compile_key_concerns_def)

lemma sorted_reverse_stable:
  "filter (\<lambda>x. key x = k) (sorted_reverse key xs) = filter (\<lambda>x. key x = k) xs"
  by (simp add: sorted_reverse_def rev_filter[symmetric] sort_key_stable)

lemma sorted_reverse_descending: "sorted (rev (map key (sorted_reverse key xs)))"
  by (simp add: sorted_reverse_def rev_map)

text \<open>
  Claim C5: the code departs from it.  Two findings of type \<open>Fraud\<close>, the first scoring
  \<open>2 * 2\<close> with description \<open>minor\<close>, the second \<open>9 * 9\<close> with description \<open>major\<close>: the
  key concern keeps the description of the first, not of the highest-scoring one,
  because the source compares the score of a finding with the product of the sums that
  already include it (here \<open>81 > 11 * 11\<close> is false).  The bound of five entries and
  the stable descending order hold (\<open>key_concerns_at_most_five\<close>,
  \<open>sorted_reverse_stable\<close>, \<open>sorted_reverse_descending\<close>).
\<close>

theorem key_concern_keeps_first_description:
  "key_concerns (compile_analysis
     [mk_finding ''Fraud'' ''minor'' 2 2, mk_finding ''Fraud'' ''major'' 9 9]) = [''Fraud: minor'']"
proof -
  let ?fs = "[mk_finding ''Fraud'' ''minor'' 2 2, mk_finding ''Fraud'' ''major'' 9 9]"
  have "\<exists>t. total_risk ?fs 0 = Inr t"
    by (simp add: mk_finding_def severity_of_def confidence_of_def div_by_10_small)
  then obtain t where "total_risk ?fs 0 = Inr t" ..
  then have "key_concerns (compile_analysis ?fs) = compile_key_concerns (scored ?fs)"
    by (simp add: compile_analysis_returns)
  then show ?thesis
    by (simp add: compile_key_concerns_def note_finding_def mk_finding_def
        severity_of_def confidence_of_def sorted_reverse_def Let_def)
qed

section \<open>Structured-Data Recovery: proofs\<close>

lemma cut_char:
  "cut [x] s = Some (b, a) \<longleftrightarrow> s = b @ x # a \<and> x \<notin> set b"
proof (induction s arbitrary: b)
  case Nil
  then show ?case by simp
next
  case (Cons c cs)
  show ?case
  proof (cases "c = x")
    case True
    then show ?thesis by (auto simp: Cons_eq_append_conv)
  next
    case False
    then show ?thesis by (auto simp: Cons Cons_eq_append_conv)
  qed
qed

lemma brace_block_iff:
  "brace_block text = Some b \<longleftrightarrow>
     (\<exists>pre mid post. text = pre @ ''{'' @ mid @ ''}'' @ post \<and> CHR ''{'' \<notin> set pre \<and>
        CHR ''}'' \<notin> set mid \<and> b = ''{'' @ mid @ ''}'')"
proof
  assume "brace_block text = Some b"
  then obtain pre rest mid post where
    "cut ''{'' text = Some (pre, rest)" "cut ''}'' rest = Some (mid, post)" "b = ''{'' @ mid @ ''}''"
    by (auto simp: brace_block_def split: option.splits)
  then show "\<exists>pre mid post. text = pre @ ''{'' @ mid @ ''}'' @ post \<and> CHR ''{'' \<notin> set pre \<and>
        CHR ''}'' \<notin> set mid \<and> b = ''{'' @ mid @ ''}''"
    by (auto simp: cut_char)
next
  assume "\<exists>pre mid post. text = pre @ ''{'' @ mid @ ''}'' @ post \<and> CHR ''{'' \<notin> set pre \<and>
        CHR ''}'' \<notin> set mid \<and> b = ''{'' @ mid @ ''}''"
  then obtain pre mid post where t: "text = pre @ ''{'' @ mid @ ''}'' @ post"
    and p: "CHR ''{'' \<notin> set pre" and m: "CHR ''}'' \<notin> set mid" and b: "b = ''{'' @ mid @ ''}''"
    by blast
  have "cut ''{'' text = Some (pre, mid @ ''}'' @ post)"
    using t p by (simp add: cut_char)
  moreover have "cut ''}'' (mid @ ''}'' @ post) = Some (mid, post)"
    using m by (simp add: cut_char)
  ultimately show "brace_block text = Some b"
    by (simp add: brace_block_def b)
qed

lemma scan_balanced_flat:
  "CHR ''{'' \<notin> set mid \<Longrightarrow> CHR ''}'' \<notin> set mid \<Longrightarrow>
   scan_balanced (mid @ ''}'' @ post) 0 acc = Some (acc @ mid @ ''}'')"
  by (induction mid arbitrary: acc) auto

lemma spec_first_balanced_flat:
  "CHR ''{'' \<notin> set pre \<Longrightarrow> CHR ''{'' \<notin> set mid \<Longrightarrow> CHR ''}'' \<notin> set mid \<Longrightarrow>
   spec_first_balanced (pre @ ''{'' @ mid @ ''}'' @ post) = Some (''{'' @ mid @ ''}'')"
  by (induction pre) (auto simp: scan_balanced_flat[where acc="''{''", simplified])


text \<open>The parts of claim C6 that hold: a text that parses is returned as parsed, and a
  text from which no step recovers anything gives the empty record.\<close>

lemma safe_extract_json_direct:
  "loads text = Parsed v \<Longrightarrow> safe_extract_json loads text = Inr v"
  by (simp add: safe_extract_json_def attempt_def)

lemma safe_extract_json_garbage:
  "loads text = JSONDecodeError \<Longrightarrow>
   (\<forall>s. fenced_block text = Some s \<longrightarrow> loads (py_strip s) = JSONDecodeError) \<Longrightarrow>
   (\<forall>s. brace_block text = Some s \<longrightarrow> loads s = JSONDecodeError) \<Longrightarrow>
   safe_extract_json loads text = Inr (JObject [])"
  by (auto simp: safe_extract_json_def attempt_def split: option.splits)

text \<open>Only \<open>JSONDecodeError\<close> is caught: any other exception of \<open>json.loads\<close> escapes, from
  each of the three attempts.\<close>

lemma safe_extract_json_escapes:
  "loads text = OtherError e \<Longrightarrow> safe_extract_json loads text = Inl e"
  "loads text = JSONDecodeError \<Longrightarrow> fenced_block text = Some s \<Longrightarrow>
   loads (py_strip s) = OtherError e \<Longrightarrow> safe_extract_json loads text = Inl e"
  "loads text = JSONDecodeError \<Longrightarrow> fenced_block text = None \<Longrightarrow>
   brace_block text = Some b \<Longrightarrow> loads b = OtherError e \<Longrightarrow>
   safe_extract_json loads text = Inl e"
  by (simp_all add: safe_extract_json_def attempt_def)

text \<open>
  Claim C6: the code departs from it.  The claim, the return annotation
  \<open>Dict[str, Any]\<close> and the docstring (\<open>Extracted JSON or empty dict\<close>) say a record is
  returned; the first step returns whatever \<open>json.loads\<close> gives.  On the text \<open>[1, 2]\<close>,
  which \<open>json.loads\<close> parses to a list, \<open>safe_extract_json\<close> returns that list, which is
  not a record.
\<close>

theorem safe_extract_json_returns_list:
  \<open>loads ''[1, 2]'' = Parsed (JArray [JNum 1, JNum 2]) \<Longrightarrow>
   safe_extract_json loads ''[1, 2]'' = Inr (JArray [JNum 1, JNum 2]) \<and>
   \<not> is_record (JArray [JNum 1, JNum 2])\<close>
  by (simp add: safe_extract_json_def attempt_def)

theorem safe_extract_json_returns_list_witness:
  \<open>sample_loads ''[1, 2]'' = Parsed (JArray [JNum 1, JNum 2]) \<and>
   safe_extract_json sample_loads ''[1, 2]'' = Inr (JArray [JNum 1, JNum 2]) \<and>
   \<not> is_record (JArray [JNum 1, JNum 2])\<close>
proof -
  have h: \<open>sample_loads ''[1, 2]'' = Parsed (JArray [JNum 1, JNum 2])\<close>
    by (simp add: sample_loads_def)
  from safe_extract_json_returns_list[of sample_loads] h show ?thesis by simp
qed

text \<open>
  The third step.  When parsing the whole text fails and the fenced block, if there is
  one, does not parse, the step takes the substring from the first opening brace of
  the text to the first closing brace after it, and returns what it parses to.  That
  substring is characterised exactly; when it has no inner opening brace it is the
  first balanced brace-delimited substring of the spec's words.
\<close>

lemma safe_extract_json_brace_step:
  "(loads text = JSONDecodeError \<and>
    (\<forall>s. fenced_block text = Some s \<longrightarrow> loads (py_strip s) = JSONDecodeError) \<and>
    brace_block text = Some b \<and> loads b = Parsed r \<longrightarrow> safe_extract_json loads text = Inr r) \<and>
   (brace_block text = Some b \<longleftrightarrow>
      (\<exists>pre mid post. text = pre @ ''{'' @ mid @ ''}'' @ post \<and> CHR ''{'' \<notin> set pre \<and>
         CHR ''}'' \<notin> set mid \<and> b = ''{'' @ mid @ ''}'')) \<and>
   (brace_block text = Some b \<and> CHR ''{'' \<notin> set (butlast (tl b)) \<longrightarrow>
      spec_first_balanced text = Some b)"
proof (intro conjI impI)
  assume "loads text = JSONDecodeError \<and>
    (\<forall>s. fenced_block text = Some s \<longrightarrow> loads (py_strip s) = JSONDecodeError) \<and>
    brace_block text = Some b \<and> loads b = Parsed r"
  then show "safe_extract_json loads text = Inr r"
    by (auto simp: safe_extract_json_def attempt_def split: option.splits)
next
  show "brace_block text = Some b \<longleftrightarrow>
      (\<exists>pre mid post. text = pre @ ''{'' @ mid @ ''}'' @ post \<and> CHR ''{'' \<notin> set pre \<and>
         CHR ''}'' \<notin> set mid \<and> b = ''{'' @ mid @ ''}'')"
    by (rule brace_block_iff)
next
  assume a: "brace_block text = Some b \<and> CHR ''{'' \<notin> set (butlast (tl b))"
  then obtain pre mid post where t: "text = pre @ ''{'' @ mid @ ''}'' @ post"
    and p: "CHR ''{'' \<notin> set pre" and m: "CHR ''}'' \<notin> set mid" and b: "b = ''{'' @ mid @ ''}''"
    using brace_block_iff[of "text" b] by blast
  from a b have "CHR ''{'' \<notin> set mid" by (simp add: butlast_append)
  from spec_first_balanced_flat[OF p this m] show "spec_first_balanced text = Some b"
    unfolding t b .
qed

lemma flat_text_facts:
  \<open>sample_loads flat_text = JSONDecodeError\<close>
  \<open>fenced_block flat_text = None\<close>
  \<open>brace_block flat_text = Some ''{"a": 1}''\<close>
  \<open>sample_loads ''{"a": 1}'' = Parsed (JObject [(''a'', JNum 1)])\<close>
  by (simp_all add: sample_loads_def flat_text_def fenced_block_def brace_block_def)

text \<open>A record without inner braces is recovered from the surrounding text.\<close>

lemma flat_text_recovered:
  \<open>safe_extract_json sample_loads flat_text = Inr (JObject [(''a'', JNum 1)]) \<and>
   spec_first_balanced flat_text = Some ''{"a": 1}''\<close>
proof -
  note t = safe_extract_json_brace_step[of sample_loads flat_text \<open>''{"a": 1}''\<close>
      "JObject [(''a'', JNum 1)]"]
  from t flat_text_facts
  have 1: "safe_extract_json sample_loads flat_text = Inr (JObject [(''a'', JNum 1)])"
    by simp
  have \<open>CHR ''{'' \<notin> set (butlast (tl ''{"a": 1}''))\<close> by simp
  with t flat_text_facts have 2: \<open>spec_first_balanced flat_text = Some ''{"a": 1}''\<close>
    by blast
  from 1 2 show ?thesis by simp
qed

lemma nested_text_facts:
  \<open>sample_loads nested_text = JSONDecodeError\<close>
  \<open>fenced_block nested_text = None\<close>
  \<open>spec_first_balanced nested_text = Some ''{"a": {"b": 1}}''\<close>
  \<open>brace_block nested_text = Some ''{"a": {"b": 1}''\<close>
  \<open>sample_loads ''{"a": {"b": 1}'' = JSONDecodeError\<close>
  \<open>sample_loads ''{"a": {"b": 1}}'' = Parsed (JObject [(''a'', JObject [(''b'', JNum 1)])])\<close>
  by (simp_all add: sample_loads_def nested_text_def fenced_block_def brace_block_def)

text \<open>
  Claim C7: the code departs from it.  The comment of the third step says \<open>Try to find
  JSON enclosed in braces\<close> and the docstring \<open>Extracted JSON or empty dict if not found\<close>,
  and the fenced step before it does return a record with nested braces; the pattern
  of the third step stops at the first closing brace.  In the text
  \<open>Result: {"a": {"b": 1}} done\<close> the first balanced brace-delimited substring is the
  record \<open>{"a": {"b": 1}}\<close>.  Neither the whole text nor the substring
  \<open>{"a": {"b": 1}\<close> that the pattern matches is JSON, so the empty record is returned and
  not that record.
\<close>

theorem nested_record_lost:
  \<open>loads nested_text = JSONDecodeError \<Longrightarrow> loads ''{"a": {"b": 1}'' = JSONDecodeError \<Longrightarrow>
   spec_first_balanced nested_text = Some ''{"a": {"b": 1}}'' \<and>
   brace_block nested_text = Some ''{"a": {"b": 1}'' \<and>
   safe_extract_json loads nested_text = Inr (JObject [])\<close>
  by (simp add: safe_extract_json_def attempt_def nested_text_facts)

theorem nested_record_lost_witness:
  \<open>sample_loads nested_text = JSONDecodeError \<and>
   sample_loads ''{"a": {"b": 1}'' = JSONDecodeError \<and>
   sample_loads ''{"a": {"b": 1}}'' = Parsed (JObject [(''a'', JObject [(''b'', JNum 1)])]) \<and>
   spec_first_balanced nested_text = Some ''{"a": {"b": 1}}'' \<and>
   safe_extract_json sample_loads nested_text = Inr (JObject [])\<close>
proof -
  from nested_record_lost[of sample_loads] nested_text_facts show ?thesis by simp
qed

section \<open>Search Adapter: proofs\<close>

lemma dedup_loop_keep_first:
  "keyed u \<Longrightarrow> map snd (dedup_loop rs u) = map snd u @ keep_first rs (set (map fst u))"
proof (induction rs arbitrary: u)
  case Nil
  then show ?case by simp
next
  case (Cons r rs)
  show ?case
  proof (cases "map_of u (r_url r) = None")
    case True
    then have n: "r_url r \<notin> set (map fst u)" by (simp add: map_of_eq_None_iff)
    have "keyed (u @ [(r_url r, r)])" using Cons.prems by (simp add: keyed_def)
    from Cons.IH[OF this] True n show ?thesis by simp
  next
    case False
    then have n: "r_url r \<in> set (map fst u)" by (simp add: map_of_eq_None_iff)
    from Cons.IH[OF Cons.prems] False n show ?thesis by auto
  qed
qed

lemma dedup_loop_start: "map snd (dedup_loop rs []) = keep_first rs {}"
  using dedup_loop_keep_first[of "[]" rs] by (simp add: keyed_def)

lemma keep_first_urls: "r_url ` set (keep_first rs seen) = r_url ` set rs - seen"
  by (induction rs arbitrary: seen) auto

lemma keep_first_distinct: "distinct (map r_url (keep_first rs seen))"
  by (induction rs arbitrary: seen) (auto simp: keep_first_urls)

lemma keep_first_subseq: "subseq (keep_first rs seen) rs"
  by (induction rs arbitrary: seen) auto

lemma keep_first_find:
  "r \<in> set (keep_first rs seen) \<Longrightarrow> find (\<lambda>x. r_url x = r_url r) rs = Some r"
proof (induction rs arbitrary: seen)
  case Nil
  then show ?case by simp
next
  case (Cons a rs)
  show ?case
  proof (cases "r_url a = r_url r")
    case True
    have "r \<notin> set (keep_first rs (insert (r_url a) seen))"
      using keep_first_urls[of rs "insert (r_url a) seen"] True by auto
    moreover have "r \<notin> set (keep_first rs seen)" if "r_url a \<in> seen"
      using keep_first_urls[of rs seen] True that by auto
    ultimately have "r = a" using Cons.prems by (auto split: if_splits)
    with True show ?thesis by simp
  next
    case False
    with Cons show ?thesis by (auto split: if_splits)
  qed
qed

lemma distinct_take_map: "distinct (map f xs) \<Longrightarrow> distinct (map f (take n xs))"
  by (simp add: take_map[symmetric])

lemma py_take_distinct: "distinct (map f xs) \<Longrightarrow> distinct (map f (py_take k xs))"
  by (simp add: py_take_def distinct_take_map)

lemma digit_inj: "i < 10 \<Longrightarrow> j < 10 \<Longrightarrow> digit i = digit j \<longleftrightarrow> i = j"
proof -
  assume "i < 10" "j < 10"
  then have "48 + i < 256" "48 + j < 256" by simp_all
  then have "(char_of (48 + i) :: char) = char_of (48 + j) \<longleftrightarrow> 48 + i = 48 + j"
    by (metis char_of_nat of_char_of nat_of_char_less_256 mod_less)
  then show ?thesis by (simp add: digit_def)
qed

lemma length_digit: "length (digit n) = 1"
  by (simp add: digit_def)

lemma upt_small: "[0..<Suc 0] = [0]" "[0..<2] = [0, 1]" "[0..<3] = [0, 1, 2]"
  by (simp_all add: upt_rec)

lemma short_list_cases:
  "length xs \<le> 3 \<Longrightarrow> xs = [] \<or> (\<exists>a. xs = [a]) \<or> (\<exists>a b. xs = [a, b]) \<or> (\<exists>a b c. xs = [a, b, c])"
  by (cases xs; cases "tl xs"; cases "tl (tl xs)"; cases "tl (tl (tl xs))") auto

lemma mock_url_eq:
  "i < 9 \<Longrightarrow> i' < 9 \<Longrightarrow> j < 9 \<Longrightarrow> j' < 9 \<Longrightarrow>
   r_url (mock_result i q j name) = r_url (mock_result i' q' j' name') \<longleftrightarrow> i = i' \<and> j = j'"
  by (simp add: mock_result_def length_digit digit_inj)

lemma mock_results_distinct:
  assumes "n \<le> 3" and "length qs \<le> 3"
  shows "distinct (map r_url (concat (map (\<lambda>(i, query). map (\<lambda>j. mock_result i query j name) [0..<n])
            (enumerate 0 qs))))"
proof -
  from assms(1) have n: "n = 0 \<or> n = 1 \<or> n = 2 \<or> n = 3" by arith
  from short_list_cases[OF assms(2)] n show ?thesis
    by (auto simp: upt_small mock_url_eq)
qed

lemma mock_web_search_distinct:
  assumes "mock_web_search queries ent top_k = Some rs"
  shows "distinct (map r_url rs)"
proof (cases "take 3 queries = [] \<or> nat (min 3 top_k) = 0 \<or> ent = None")
  case True
  with assms show ?thesis
    by (auto simp: mock_web_search_def Let_def split: if_splits option.splits)
next
  case False
  then obtain e where e: "ent = Some e" by auto
  have "nat (min 3 top_k) \<le> 3" "length (take 3 queries) \<le> 3" by simp_all
  note d = mock_results_distinct[OF this]
  from assms False e have "rs = concat (map (\<lambda>(i, query). map (\<lambda>j. mock_result i query j
      (case e_full_name e of None \<Rightarrow> ''the entity'' | Some v \<Rightarrow> py_str v)) [0..<nat (min 3 top_k)])
            (enumerate 0 (take 3 queries)))"
    by (simp add: mock_web_search_def Let_def)
  with d show ?thesis by simp
qed

lemma mock_web_search_length:
  "mock_web_search queries (Some e) top_k = Some rs \<Longrightarrow>
   length rs = min 3 (length queries) * nat (min 3 top_k)"
  by (auto simp: mock_web_search_def Let_def length_concat comp_def case_prod_beta
        sum_list_triv min.commute split: if_splits)

lemma all_queries_fail:
  "\<forall>q. provider q = None \<Longrightarrow> concat (map (perform_bing_search provider) qs) = []"
  by (induction qs) (simp_all add: perform_bing_search_def)

lemma call_web_search_mock_length:
  assumes "select_queries si = Some qs" and "si_entity si = Some e"
  shows "length (call_web_search True provider si top_k) = min 3 (length qs) * nat (min 3 top_k)"
proof (cases "mock_web_search qs (Some e) top_k")
  case None
  then show ?thesis by (simp add: mock_web_search_def Let_def split: if_splits)
next
  case (Some rs)
  with assms mock_web_search_length[OF Some] show ?thesis
    by (simp add: call_web_search_def)
qed

text \<open>
  What holds of claim C8.  The list \<open>call_web_search\<close> returns never holds two entries
  with the same URL.  With a live provider it is the concatenation of the results of
  the queries (a failing query adds nothing) with only the first occurrence of each
  URL kept (\<open>kept\<close>: distinct URLs, a subsequence of what was found, the same URLs, each
  entry the first found with its URL), cut with \<open>[:top_k]\<close>; it has at most \<open>top_k\<close>
  entries when \<open>top_k\<close> is not negative, and it is empty when every query fails.  In
  the testing mode the provider is not asked and the list has \<open>min(3, top_k)\<close> generated
  entries for each of the first three queries, so it respects a cap of 9 or more.
\<close>

lemma call_web_search_results:
  "distinct (map r_url (call_web_search mock provider si top_k)) \<and>
   (\<not> mock \<and> select_queries si = Some qs \<longrightarrow>
      (\<exists>kept. call_web_search mock provider si top_k = py_take top_k kept \<and>
         distinct (map r_url kept) \<and>
         subseq kept (concat (map (perform_bing_search provider) qs)) \<and>
         r_url ` set kept = r_url ` set (concat (map (perform_bing_search provider) qs)) \<and>
         (\<forall>r\<in>set kept.
            find (\<lambda>x. r_url x = r_url r) (concat (map (perform_bing_search provider) qs)) = Some r))) \<and>
   (\<not> mock \<and> 0 \<le> top_k \<longrightarrow> length (call_web_search mock provider si top_k) \<le> nat top_k) \<and>
   (\<not> mock \<and> (\<forall>q. provider q = None) \<longrightarrow> call_web_search mock provider si top_k = []) \<and>
   (mock \<and> select_queries si = Some qs \<and> si_entity si \<noteq> None \<longrightarrow>
      length (call_web_search mock provider si top_k) = min 3 (length qs) * nat (min 3 top_k)) \<and>
   (mock \<and> select_queries si = Some qs \<and> si_entity si \<noteq> None \<and> 9 \<le> top_k \<longrightarrow>
      length (call_web_search mock provider si top_k) \<le> nat top_k)"
proof (intro conjI impI)
  show "distinct (map r_url (call_web_search mock provider si top_k))"
    by (auto simp: call_web_search_def dedup_loop_start keep_first_distinct py_take_distinct
        mock_web_search_distinct split: option.splits)
next
  assume a: "\<not> mock \<and> select_queries si = Some qs"
  let ?found = "concat (map (perform_bing_search provider) qs)"
  have "call_web_search mock provider si top_k = py_take top_k (keep_first ?found {})"
    using a by (simp add: call_web_search_def dedup_loop_start)
  moreover have "r_url ` set (keep_first ?found {}) = r_url ` set ?found"
    using keep_first_urls[of ?found "{}"] by simp
  ultimately show "\<exists>kept. call_web_search mock provider si top_k = py_take top_k kept \<and>
         distinct (map r_url kept) \<and> subseq kept ?found \<and>
         r_url ` set kept = r_url ` set ?found \<and>
         (\<forall>r\<in>set kept. find (\<lambda>x. r_url x = r_url r) ?found = Some r)"
    using keep_first_distinct[of ?found "{}"] keep_first_subseq[of ?found "{}"]
      keep_first_find[of _ ?found "{}"]
    by blast
next
  assume "\<not> mock \<and> 0 \<le> top_k"
  then show "length (call_web_search mock provider si top_k) \<le> nat top_k"
    by (simp add: call_web_search_def py_take_def split: option.splits)
next
  assume a: "\<not> mock \<and> (\<forall>q. provider q = None)"
  then have nil: "concat (map (perform_bing_search provider) qs') = []" for qs'
    by (intro all_queries_fail) simp
  from a show "call_web_search mock provider si top_k = []"
    by (simp add: call_web_search_def py_take_def nil split: option.splits)
next
  assume a: "mock \<and> select_queries si = Some qs \<and> si_entity si \<noteq> None"
  then obtain e where e: "si_entity si = Some e" by auto
  from a call_web_search_mock_length[OF _ e, of qs provider top_k]
  show "length (call_web_search mock provider si top_k) = min 3 (length qs) * nat (min 3 top_k)"
    by simp
next
  assume a: "mock \<and> select_queries si = Some qs \<and> si_entity si \<noteq> None \<and> 9 \<le> top_k"
  then obtain e where e: "si_entity si = Some e" by auto
  from a call_web_search_mock_length[OF _ e, of qs provider top_k]
  have "length (call_web_search mock provider si top_k) = min 3 (length qs) * 3"
    by (simp add: min_def)
  also have "\<dots> \<le> 9" by simp
  finally have "length (call_web_search mock provider si top_k) \<le> 9" .
  moreover from a have "9 \<le> nat top_k" by linarith
  ultimately show "length (call_web_search mock provider si top_k) \<le> nat top_k"
    by (rule order_trans)
qed

lemma three_queries_selected:
  "select_queries three_queries = Some [''a scandal'', ''a fraud'', ''a lawsuit'']"
  by (simp add: select_queries_def three_queries_def)

text \<open>Examples of the live and of the testing branch.\<close>

lemma call_web_search_examples:
  "select_queries three_queries = Some [''a scandal'', ''a fraud'', ''a lawsuit''] \<and>
   map r_title (call_web_search False sample_provider three_queries 2) = [''first'', ''second''] \<and>
   map r_title (call_web_search False sample_provider three_queries 10) = [''first'', ''second'', ''fourth''] \<and>
   length (call_web_search False sample_provider three_queries 2) \<le> nat 2 \<and>
   call_web_search False (\<lambda>q. None) three_queries 10 = [] \<and>
   si_entity three_queries \<noteq> None \<and>
   length (call_web_search True sample_provider three_queries 1) = 3"
proof -
  note s = three_queries_selected
  have e: "si_entity three_queries \<noteq> None" by (simp add: three_queries_def)
  have 1: "map r_title (call_web_search False sample_provider three_queries 2) = [''first'', ''second'']"
    and 2: "map r_title (call_web_search False sample_provider three_queries 10) = [''first'', ''second'', ''fourth'']"
    by (simp_all add: call_web_search_def s perform_bing_search_def sample_provider_def
        py_take_def result_at_def)
  from call_web_search_results[of False sample_provider three_queries 2]
  have 3: "length (call_web_search False sample_provider three_queries 2) \<le> nat 2" by simp
  from call_web_search_results[of False "\<lambda>q. None" three_queries 10]
  have 4: "call_web_search False (\<lambda>q. None) three_queries 10 = []" by simp
  from call_web_search_results[of True sample_provider three_queries 1
      "[''a scandal'', ''a fraud'', ''a lawsuit'']"] s e
  have 5: "length (call_web_search True sample_provider three_queries 1) = 3" by simp
  from s 1 2 3 4 e 5 show ?thesis by blast
qed


section \<open>Pipeline Orchestrator: proofs\<close>

lemma map_of_dict_set: "map_of (dict_set k v kvs) k' = (if k' = k then Some v else map_of kvs k')"
  by (induction kvs) auto

lemma debug_mark:
  "map_of (st_debug (mark stage tag s)) stage' =
     (if stage' = stage then Some tag else map_of (st_debug s) stage')"
  by (simp add: mark_def map_of_dict_set)

lemma mark_fields:
  "st_error (mark stage tag s) = st_error s"
  "st_entity (mark stage tag s) = st_entity s"
  "st_queries (mark stage tag s) = st_queries s"
  "st_search_results (mark stage tag s) = st_search_results s"
  "st_scraped_content (mark stage tag s) = st_scraped_content s"
  "st_content_chunks (mark stage tag s) = st_content_chunks s"
  "st_analysis (mark stage tag s) = st_analysis s"
  "st_report (mark stage tag s) = st_report s"
  "st_output (mark stage tag s) = st_output s"
  "st_input (mark stage tag s) = st_input s"
  by (simp_all add: mark_def)

lemma ready_after_query_generation:
  "ready (query_generation_node ev (entity_resolution_node ev (initialize_state slot u)))"
proof -
  let ?s0 = "initialize_state slot u"
  have 0: "st_error ?s0 = None" by (simp add: initialize_state_def Let_def)
  let ?s1 = "entity_resolution_node ev ?s0"
  have 1: "st_error ?s1 = None \<and> st_entity ?s1 \<noteq> None"
    using 0 by (simp add: entity_resolution_node_def Let_def mark_fields split: option.splits)
  then show ?thesis
    by (simp add: ready_def query_generation_node_def Let_def mark_fields split: option.splits)
qed

lemma search_node_ready:
  assumes "ready s"
  shows "st_error (search_node ev s) = None"
    and "st_entity (search_node ev s) \<noteq> None"
    and "map_of (st_debug (search_node ev s)) ''search'' = Some ''success''"
    and "\<not> env_search_mock ev \<Longrightarrow> \<forall>q. env_provider ev q = None \<Longrightarrow>
           st_search_results (search_node ev s) = Some []"
proof -
  from assms obtain q where q: "st_queries s = Some q" and e: "st_error s = None"
    and n: "st_entity s \<noteq> None" by (auto simp: ready_def)
  show "st_error (search_node ev s) = None" "st_entity (search_node ev s) \<noteq> None"
    "map_of (st_debug (search_node ev s)) ''search'' = Some ''success''"
    using q e n by (simp_all add: search_node_def Let_def mark_fields debug_mark)
  assume "\<not> env_search_mock ev" "\<forall>q. env_provider ev q = None"
  then have "call_web_search (env_search_mock ev) (env_provider ev) si k = []" for si k
    by (simp add: call_web_search_def all_queries_fail py_take_def split: option.splits)
  then show "st_search_results (search_node ev s) = Some []"
    using q e by (simp add: search_node_def Let_def mark_fields)
qed

text \<open>The later stages leave the tag of the search stage alone.\<close>

lemma later_stages_keep_search_tag:
  "map_of (st_debug (scraping_node ev s)) ''search'' = map_of (st_debug s) ''search''"
  "map_of (st_debug (chunking_node s)) ''search'' = map_of (st_debug s) ''search''"
  "map_of (st_debug (analysis_node ev s)) ''search'' = map_of (st_debug s) ''search''"
  "map_of (st_debug (formatting_node ev s)) ''search'' = map_of (st_debug s) ''search''"
  by (simp_all add: scraping_node_def chunking_node_def analysis_node_def formatting_node_def
      Let_def debug_mark mark_fields split: option.splits)

lemma search_always_success:
  "map_of (st_debug (run_graph ev slot u)) ''search'' = Some ''success''"
  unfolding run_graph_def later_stages_keep_search_tag
  by (rule search_node_ready(3)) (rule ready_after_query_generation)

lemma no_results_downstream:
  assumes "st_error s = None" and "st_entity s = Some e" and "st_search_results s = Some []"
    and t_def: "t = formatting_node ev (analysis_node ev (chunking_node (scraping_node ev s)))"
  shows "st_search_results t = Some []"
    and "map_of (st_debug t) ''scraping'' = Some ''failed''"
    and "map_of (st_debug t) ''chunking'' = Some ''failed''"
    and "map_of (st_debug t) ''analysis'' = Some ''success''"
    and "map_of (st_debug t) ''formatting'' = Some ''success''"
    and "st_error t = None"
    and "st_analysis t = Some (empty_analysis ''No content was available for analysis'')"
    and "\<exists>r. st_report t = Some r \<and> \<not> rp_has_negative_news r \<and> rp_risk_score r = 0 \<and>
           rp_findings r = []"
    and "out_has_negative_news (st_output t) = Some False"
    and "out_risk_score (st_output t) = Some 0"
proof -
  define s1 where "s1 = mark ''scraping'' ''failed'' (s \<lparr> st_scraped_content := Some [] \<rparr>)"
  define s2 where "s2 = mark ''chunking'' ''failed'' (s1 \<lparr> st_content_chunks := Some [] \<rparr>)"
  define a where "a = empty_analysis ''No content was available for analysis''"
  define s3 where "s3 = mark ''analysis'' ''success''
      (s2 \<lparr> st_analysis := Some a, st_entity := st_entity s2,
            st_output := (st_output s2)
              \<lparr> out_entity := (if out_entity (st_output s2) = None then None else st_entity s2),
                out_analysis := Some a,
                out_has_negative_news := Some (has_negative_news a),
                out_risk_score := Some (risk_score a),
                out_summary := Some (summary a) \<rparr> \<rparr>)"
  define r where "r = format_results (env_client ev) (env_format ev) a e"
  have 1: "scraping_node ev s = s1"
    using assms(1,3) by (simp add: scraping_node_def s1_def)
  have e1: "st_error s1 = None" "st_scraped_content s1 = Some []"
    using assms(1) by (simp_all add: s1_def mark_fields)
  have 2: "chunking_node s1 = s2"
    using e1 by (simp add: chunking_node_def s2_def)
  have e2: "st_error s2 = None" "st_content_chunks s2 = Some []" "st_entity s2 = Some e"
    using assms(1,2) by (simp_all add: s2_def s1_def mark_fields)
  have 3: "analysis_node ev s2 = s3"
    using e2 by (simp add: analysis_node_def Let_def or_else_def s3_def a_def)
  have e3: "st_entity s3 = Some e" "st_analysis s3 = Some a"
    using e2 by (simp_all add: s3_def mark_fields)
  have t: "t = mark ''formatting'' ''success''
      (s3 \<lparr> st_report := Some r, st_output := finish_output r (st_output s3) \<rparr>)"
    unfolding t_def 1 2 3 using e3 by (simp add: formatting_node_def Let_def r_def)
  have r: "\<not> rp_has_negative_news r \<and> rp_risk_score r = 0 \<and> rp_findings r = []"
    unfolding r_def a_def
    by (cases "env_client ev"; cases "env_format ev")
       (simp_all add: format_results_def base_report_def empty_analysis_def Let_def)
  show "st_search_results t = Some []"
    using assms(3) by (simp add: t s3_def s2_def s1_def mark_def)
  show "map_of (st_debug t) ''scraping'' = Some ''failed''"
    "map_of (st_debug t) ''chunking'' = Some ''failed''"
    "map_of (st_debug t) ''analysis'' = Some ''success''"
    "map_of (st_debug t) ''formatting'' = Some ''success''"
    by (simp_all add: t s3_def s2_def s1_def mark_def map_of_dict_set)
  show "st_error t = None"
    using assms(1) by (simp add: t s3_def s2_def s1_def mark_def)
  show "st_analysis t = Some (empty_analysis ''No content was available for analysis'')"
    by (simp add: t s3_def mark_def a_def)
  show "\<exists>r. st_report t = Some r \<and> \<not> rp_has_negative_news r \<and> rp_risk_score r = 0 \<and>
           rp_findings r = []"
    using r by (simp add: t mark_def)
  show "out_has_negative_news (st_output t) = Some False"
    by (simp add: t s3_def mark_def finish_output_def or_else_def empty_analysis_def a_def)
  show "out_risk_score (st_output t) = Some 0"
    by (simp add: t s3_def mark_def finish_output_def or_else_def empty_analysis_def a_def)
qed

text \<open>
  Claim C9, as amended.  If the live search provider fails on every query, the pipeline
  still runs through the Format stage: \<open>search_results\<close> is the empty list, no error
  marker is set, the analysis is the empty one and the report has
  \<open>has_negative_news = false\<close> and risk score 0.  The debug trail tags the search stage
  \<open>success\<close>, because the adapter has turned the provider's errors into an empty list;
  the stages tagged \<open>failed\<close> are scraping and chunking, which find nothing to work on.
\<close>

theorem provider_failure_pipeline:
  assumes "\<not> env_search_mock ev" and "\<forall>q. env_provider ev q = None"
  shows "st_search_results (run_graph ev slot u) = Some [] \<and>
         map_of (st_debug (run_graph ev slot u)) ''search'' = Some ''success'' \<and>
         map_of (st_debug (run_graph ev slot u)) ''scraping'' = Some ''failed'' \<and>
         map_of (st_debug (run_graph ev slot u)) ''chunking'' = Some ''failed'' \<and>
         map_of (st_debug (run_graph ev slot u)) ''analysis'' = Some ''success'' \<and>
         map_of (st_debug (run_graph ev slot u)) ''formatting'' = Some ''success'' \<and>
         st_error (run_graph ev slot u) = None \<and>
         st_analysis (run_graph ev slot u) =
           Some (empty_analysis ''No content was available for analysis'') \<and>
         (\<exists>r. st_report (run_graph ev slot u) = Some r \<and> \<not> rp_has_negative_news r \<and>
              rp_risk_score r = 0 \<and> rp_findings r = []) \<and>
         out_has_negative_news (st_output (run_graph ev slot u)) = Some False"
proof -
  define s where
    "s = search_node ev (query_generation_node ev (entity_resolution_node ev (initialize_state slot u)))"
  have rdy: "ready (query_generation_node ev (entity_resolution_node ev (initialize_state slot u)))"
    by (rule ready_after_query_generation)
  from search_node_ready[OF rdy, of ev] assms
  have e: "st_error s = None" and n: "st_entity s \<noteq> None" and r: "st_search_results s = Some []"
    by (simp_all add: s_def)
  from n obtain ent where ent: "st_entity s = Some ent" by auto
  have t: "run_graph ev slot u =
      formatting_node ev (analysis_node ev (chunking_node (scraping_node ev s)))"
    by (simp add: run_graph_def s_def)
  note d = no_results_downstream[OF e ent r t]
  from d search_always_success[of ev slot u] show ?thesis by simp
qed

lemma failing_env_facts:
  "\<not> env_search_mock failing_env" "\<forall>q. env_provider failing_env q = None"
  by (simp_all add: failing_env_def)

text \<open>Claim C9 as stated fails on its last part: with a provider that fails on every query
  the search stage is tagged \<open>success\<close>, not \<open>failed\<close> (in a run of the graph it is always
  tagged \<open>success\<close>, \<open>search_always_success\<close>).\<close>

theorem search_tag_counterexample:
  "\<not> (\<forall>ev slot u. \<not> env_search_mock ev \<and> (\<forall>q. env_provider ev q = None) \<longrightarrow>
         map_of (st_debug (run_graph ev slot u)) ''search'' = Some ''failed'')"
proof
  assume "\<forall>ev slot u. \<not> env_search_mock ev \<and> (\<forall>q. env_provider ev q = None) \<longrightarrow>
         map_of (st_debug (run_graph ev slot u)) ''search'' = Some ''failed''"
  with failing_env_facts
  have "map_of (st_debug (run_graph failing_env None jane)) ''search'' = Some ''failed''"
    by blast
  with search_always_success[of failing_env None jane] show False by simp
qed

theorem provider_failure_pipeline_witness:
  "\<not> env_search_mock failing_env \<and> env_provider failing_env ''Jane Smith fraud'' = None \<and>
   st_search_results (run_graph failing_env None jane) = Some [] \<and>
   map_of (st_debug (run_graph failing_env None jane)) ''search'' = Some ''success'' \<and>
   map_of (st_debug (run_graph failing_env None jane)) ''scraping'' = Some ''failed'' \<and>
   out_has_negative_news (st_output (run_graph failing_env None jane)) = Some False"
  using provider_failure_pipeline[OF failing_env_facts, of None jane] failing_env_facts
  by simp

text \<open>In that run the output, too, carries the risk score 0.\<close>

lemma provider_failure_output_risk:
  assumes "\<not> env_search_mock ev" and "\<forall>q. env_provider ev q = None"
  shows "out_risk_score (st_output (run_graph ev slot u)) = Some 0"
proof -
  define s where
    "s = search_node ev (query_generation_node ev (entity_resolution_node ev (initialize_state slot u)))"
  have rdy: "ready (query_generation_node ev (entity_resolution_node ev (initialize_state slot u)))"
    by (rule ready_after_query_generation)
  from search_node_ready[OF rdy, of ev] assms
  have e: "st_error s = None" and n: "st_entity s \<noteq> None" and r: "st_search_results s = Some []"
    by (simp_all add: s_def)
  from n obtain ent where ent: "st_entity s = Some ent" by auto
  have t: "run_graph ev slot u =
      formatting_node ev (analysis_node ev (chunking_node (scraping_node ev s)))"
    by (simp add: run_graph_def s_def)
  from no_results_downstream(10)[OF e ent r t] show ?thesis .
qed

text \<open>
  Claim C10, as amended.  The initial state is a function of the request and of the
  module variable \<open>_last_input_data\<close>.  For a request that is not empty the variable is
  not read.  Inside \<open>invoke_negative_news_check\<close>, which stores the request in the
  variable before it runs the graph, the initial state is that of the request alone,
  also when the first node is handed an empty dictionary in place of a non-empty
  request; the wrapper's output does not depend on what the variable held before.
  An empty request that reaches \<open>initialize_state\<close> while the variable holds an earlier
  non-empty request is initialised from that earlier request.
\<close>

theorem initial_state_dependence:
  "(\<not> input_empty u \<longrightarrow> initialize_state slot u = initialize_state None u) \<and>
   initialize_state (Some u) u = initialize_state None u \<and>
   (input_truthy u \<longrightarrow> initialize_state (Some u) (DictInput []) = initialize_state None u) \<and>
   (input_empty u \<and> slot = Some cached \<and> input_truthy cached \<longrightarrow>
      initialize_state slot u = initialize_state None cached) \<and>
   fst (invoke_negative_news_check ev slot u) = Some u \<and>
   snd (invoke_negative_news_check ev slot u) = snd (invoke_negative_news_check ev slot' u)"
proof (intro conjI impI)
  assume "\<not> input_empty u"
  then show "initialize_state slot u = initialize_state None u"
    by (simp add: initialize_state_def split: option.splits)
next
  show "initialize_state (Some u) u = initialize_state None u"
    by (auto simp: initialize_state_def input_empty_def)
next
  assume "input_truthy u"
  then show "initialize_state (Some u) (DictInput []) = initialize_state None u"
    by (simp add: initialize_state_def input_empty_def)
next
  assume "input_empty u \<and> slot = Some cached \<and> input_truthy cached"
  then show "initialize_state slot u = initialize_state None cached"
    by (simp add: initialize_state_def)
next
  show "fst (invoke_negative_news_check ev slot u) = Some u"
    by (simp add: invoke_negative_news_check_def Let_def)
next
  show "snd (invoke_negative_news_check ev slot u) = snd (invoke_negative_news_check ev slot' u)"
    by (simp add: invoke_negative_news_check_def Let_def)
qed

text \<open>Claim C10 as stated fails: for the empty dictionary the initial state is built from
  the request the variable holds, Alice's or Bob's.\<close>

theorem shared_slot_counterexample:
  "\<not> (\<forall>slot slot' u. initialize_state slot u = initialize_state slot' u)"
proof
  assume "\<forall>slot slot' u. initialize_state slot u = initialize_state slot' u"
  then have "initialize_state (Some alice) (DictInput []) = initialize_state (Some bob) (DictInput [])"
    by blast
  then have "st_input (initialize_state (Some alice) (DictInput [])) =
             st_input (initialize_state (Some bob) (DictInput []))"
    by simp
  then show False
    by (simp add: initialize_state_def input_empty_def alice_def bob_def input_of_dict_def
        dict_get_def)
qed

theorem initial_state_dependence_witness:
  "\<not> input_empty jane \<and> input_truthy jane \<and> input_empty (DictInput []) \<and> input_truthy alice \<and>
   initialize_state (Some alice) jane = initialize_state None jane \<and>
   initialize_state (Some jane) (DictInput []) = initialize_state None jane \<and>
   initialize_state (Some alice) (DictInput []) = initialize_state None alice \<and>
   snd (invoke_negative_news_check failing_env (Some alice) jane) =
     snd (invoke_negative_news_check failing_env None jane)"
proof -
  have h: "\<not> input_empty jane" "input_truthy jane" "input_empty (DictInput [])" "input_truthy alice"
    by (simp_all add: input_empty_def jane_def alice_def)
  note t = initial_state_dependence[of jane "Some alice" alice failing_env None]
    initial_state_dependence[of "DictInput []" "Some alice" alice failing_env None]
  from t(1) h have 1: "initialize_state (Some alice) jane = initialize_state None jane" by blast
  from t(1) h have 2: "initialize_state (Some jane) (DictInput []) = initialize_state None jane"
    by blast
  from t(2) h have 3: "initialize_state (Some alice) (DictInput []) = initialize_state None alice"
    by blast
  from t(1) have 4: "snd (invoke_negative_news_check failing_env (Some alice) jane) =
     snd (invoke_negative_news_check failing_env None jane)" by blast
  from h 1 2 3 4 show ?thesis by blast
qed

end
